theory Spec2Isabelle
  imports Main "HOL-Library.AList"
begin

section \<open>JavaScript values\<close>

text \<open>
  Question identifiers are what jQuery's \<open>.data('question-id')\<close> decodes from an
  attribute, or a sibling position: \<open>undefined\<close>, \<open>null\<close>, a boolean, a whole number
  or a string. On these values strict equality and the key equality of a \<open>Map\<close> are
  plain equality.
\<close>

datatype jval = JUndefined | JNull | JBool bool | JNum int | JStr string

fun truthy :: "jval \<Rightarrow> bool" where
  "truthy JUndefined = False"
| "truthy JNull = False"
| "truthy (JBool b) = b"
| "truthy (JNum n) = (n \<noteq> 0)"
| "truthy (JStr s) = (s \<noteq> [])"

text \<open>The operator \<open>a || b\<close>: the left operand when it is truthy, the right one otherwise.\<close>

definition jor :: "jval \<Rightarrow> jval \<Rightarrow> jval" where
  "jor a b = (if truthy a then a else b)"

text \<open>
  The body of a response, as \<open>response.json()\<close> parses it; an object lists each of
  its keys once. A property read yields \<open>json option\<close>, \<open>None\<close> standing for
  \<open>undefined\<close>.
\<close>

datatype json =
    JsNull
  | JsBool bool
  | JsNum int
  | JsStr string
  | JsArr "json list"
  | JsObj "(string \<times> json) list"

fun jtruthy :: "json \<Rightarrow> bool" where
  "jtruthy JsNull = False"
| "jtruthy (JsBool b) = b"
| "jtruthy (JsNum n) = (n \<noteq> 0)"
| "jtruthy (JsStr s) = (s \<noteq> [])"
| "jtruthy (JsArr xs) = True"
| "jtruthy (JsObj kvs) = True"

fun otruthy :: "json option \<Rightarrow> bool" where
  "otruthy None = False"
| "otruthy (Some j) = jtruthy j"

datatype error = TypeError | NetworkFailure | ParseFailure

text \<open>
  \<open>member v k\<close> is the property read \<open>v.k\<close> for the keys this program reads
  (\<open>success\<close>, \<open>data\<close>, \<open>media\<close>): it raises on \<open>undefined\<close> and \<open>null\<close>, finds
  the key in an object, and is \<open>undefined\<close> on every other value.
\<close>

fun member :: "json option \<Rightarrow> string \<Rightarrow> error + json option" where
  "member None k = Inl TypeError"
| "member (Some JsNull) k = Inl TypeError"
| "member (Some (JsObj kvs)) k = Inr (map_of kvs k)"
| "member (Some v) k = Inr None"

text \<open>
  \<open>field m k\<close> is the same read on a payload the caller has already tested truthy (both
  callers of \<open>displayMedia\<close> do), where it cannot raise.
\<close>

fun field :: "json \<Rightarrow> string \<Rightarrow> json option" where
  "field (JsObj kvs) k = map_of kvs k"
| "field v k = None"

section \<open>Configuration and state\<close>

definition cacheTimeout :: int where
  "cacheTimeout = 30000"

definition debounceDelay :: int where
  "debounceDelay = 100"

text \<open>The globals the host page supplies in \<open>lilacQuizSidebar\<close>.\<close>

record host =
  ajaxUrl :: string
  nonce :: string
  enforceHint :: bool

record cache_entry =
  data :: json
  timestamp :: int

type_synonym node = nat

text \<open>
  An element as the locator's selectors see it: its class list, whether jQuery's
  \<open>:visible\<close> holds, the classes of its ancestors, the decoded \<open>data-question-id\<close>
  of the element itself (\<open>undefined\<close> without the attribute) and of each descendant
  that carries the attribute, in document order, and \<open>.index()\<close>, its position among
  its siblings.
\<close>

record element =
  el_classes :: "string list"
  el_visible :: bool
  el_ancestor_classes :: "string list"
  el_data_id :: jval
  el_descendant_ids :: "jval list"
  el_index :: nat

text \<open>The children the renderer puts into \<open>#question-media\<close>.\<close>

datatype markup =
    Img (img_src: "json option") (img_alt: "json option") (img_loading: string)
  | Video (video_src: "json option") (video_controls: bool) (video_preload: string)
  | Div (div_class: string) (div_text: string)
  | Foreign string

text \<open>
  The part of the document the script reads and writes: the elements in document
  order, the children of \<open>#question-media\<close> (\<open>None\<close> when the page has no such
  element), the class set of a node, the \<open>.wpProQuiz_tip\<close> descendants of a list
  item, the \<open>disabled\<close> property of each \<open>.wpProQuiz_button\<close>, and whether
  \<open>.wpProQuiz_content\<close> exists.
\<close>

record page =
  elements :: "element list"
  container :: "markup list option"
  classesOf :: "node \<Rightarrow> string set"
  tips :: "node \<Rightarrow> node list"
  buttons :: "bool list"
  quizRoot :: bool

text \<open>
  The answer input a click landed on, with what \<open>closest\<close> and \<open>index\<close> report
  for it: the enclosing \<open>.wpProQuiz_listItem\<close> (none when the jQuery set is empty, and
  then \<open>.index()\<close> is \<open>-1\<close>) and the enclosing \<open>.wpProQuiz_questionListItem\<close>
  (none when the input lies outside any such element, and then \<open>$wrapper[0]\<close> is
  \<open>undefined\<close>).
\<close>

record answer_input =
  inp_question :: "node option"
  inp_index :: int
  inp_wrapper :: "node option"

text \<open>The two closures this script hands to \<open>debounce\<close>.\<close>

datatype action = Navigate | CheckAnswer answer_input

record timer =
  tid :: nat
  due :: int
  tkey :: string
  tfunc :: action

text \<open>A \<open>MutationObserver\<close> made by \<open>checkAnswerAndEnforceHint\<close>, with the
  \<open>$question\<close> its callback closes over.\<close>

record watcher =
  wquestion :: "node option"
  wtarget :: node
  connected :: bool

record mutation =
  mtype :: string
  attributeName :: "string option"
  mtarget :: node

record request =
  req_url :: string
  req_method :: string
  req_action :: string
  req_question_id :: jval
  req_nonce :: string

text \<open>What the network gives back: \<open>fetch\<close> rejects, \<open>response.json()\<close> rejects, or
  a parsed body.\<close>

datatype response = Unreachable | Unparsable | Body json

text \<open>The observable actions, recorded in order.\<close>

datatype effect =
    LoadCalled jval bool
  | NavDisabled
  | NavEnabled
  | HintClicked node
  | Ran string action

text \<open>
  The module's \<open>state\<close> object (\<open>initialized\<close>, \<open>currentQuestion\<close>,
  \<open>mediaCache\<close>, \<open>observers\<close>, \<open>debounceTimers\<close>), the browser's side of it
  (the clock, the pending timeouts, the observer objects, the requests issued and the
  ones already answered), the page, the host's globals, and the trace of actions.
\<close>

record world =
  now :: int
  host :: host
  page :: page
  initialized :: bool
  currentQuestion :: jval
  mediaCache :: "jval \<rightharpoonup> cache_entry"
  observers :: "nat list"
  debounceTimers :: "(string \<times> nat) list"
  timers :: "timer list"
  nextTimer :: nat
  watchers :: "watcher list"
  requests :: "request list"
  settled :: "nat list"
  trace :: "effect list"

definition initial :: "host \<Rightarrow> page \<Rightarrow> int \<Rightarrow> world" where
  "initial h p t =
     \<lparr>now = t, host = h, page = p, initialized = False, currentQuestion = JNull,
      mediaCache = Map.empty, observers = [], debounceTimers = [], timers = [],
      nextTimer = 0, watchers = [], requests = [], settled = [], trace = []\<rparr>"

definition emit :: "effect \<Rightarrow> world \<Rightarrow> world" where
  "emit e w = w\<lparr>trace := trace w @ [e]\<rparr>"

section \<open>Media cache\<close>

definition cacheMedia :: "jval \<Rightarrow> json \<Rightarrow> world \<Rightarrow> world" where
  "cacheMedia questionId mediaData w =
     w\<lparr>mediaCache := (mediaCache w)(questionId \<mapsto> \<lparr>data = mediaData, timestamp = now w\<rparr>)\<rparr>"

text \<open>The result is the cached payload, or \<open>null\<close> after the entry has been deleted.\<close>

definition getCachedMedia :: "jval \<Rightarrow> world \<Rightarrow> json \<times> world" where
  "getCachedMedia questionId w =
     (case mediaCache w questionId of
        Some cached \<Rightarrow>
          if now w - timestamp cached < cacheTimeout then (data cached, w)
          else (JsNull, w\<lparr>mediaCache := (mediaCache w)(questionId := None)\<rparr>)
      | None \<Rightarrow> (JsNull, w\<lparr>mediaCache := (mediaCache w)(questionId := None)\<rparr>))"

section \<open>Question locator\<close>

text \<open>
  A selector of the shape this script uses: classes the element must carry, an optional
  \<open>:visible\<close>, and an optional class of some ancestor.
\<close>

record selector =
  sel_classes :: "string list"
  sel_visible :: bool
  sel_ancestor :: "string option"

definition selectors :: "selector list" where
  "selectors =
     [\<lparr>sel_classes = [''wpProQuiz_listItem'', ''wpProQuiz_reviewQuestionTarget''],
       sel_visible = False, sel_ancestor = None\<rparr>,
      \<lparr>sel_classes = [''wpProQuiz_listItem''], sel_visible = True, sel_ancestor = None\<rparr>,
      \<lparr>sel_classes = [''wpProQuiz_listItem''], sel_visible = False,
       sel_ancestor = Some ''wpProQuiz_questionList''\<rparr>]"

definition matches :: "selector \<Rightarrow> element \<Rightarrow> bool" where
  "matches s e =
     (list_all (\<lambda>c. c \<in> set (el_classes e)) (sel_classes s)
      \<and> (if sel_visible s then el_visible e else True)
      \<and> (case sel_ancestor s of None \<Rightarrow> True | Some c \<Rightarrow> c \<in> set (el_ancestor_classes e)))"

text \<open>\<open>$question.find('[data-question-id]').data('question-id')\<close>: the value of the
  first descendant found, \<open>undefined\<close> when there is none.\<close>

definition descendantId :: "element \<Rightarrow> jval" where
  "descendantId e = (case el_descendant_ids e of [] \<Rightarrow> JUndefined | v # _ \<Rightarrow> v)"

definition questionIdOf :: "element \<Rightarrow> jval" where
  "questionIdOf e = jor (jor (el_data_id e) (descendantId e)) (JNum (int (el_index e) + 1))"

fun probe :: "selector list \<Rightarrow> element list \<Rightarrow> jval" where
  "probe [] els = JNull"
| "probe (s # ss) els =
     (case List.find (matches s) els of
        Some e \<Rightarrow> questionIdOf e
      | None \<Rightarrow> probe ss els)"

definition getCurrentQuestionId :: "world \<Rightarrow> jval \<times> world" where
  "getCurrentQuestionId w = (probe selectors (elements (page w)), w)"

section \<open>Media renderer\<close>

text \<open>The fragment is built off the document: one \<open>img\<close> for type \<open>image\<close>, one
  \<open>video\<close> for type \<open>video\<close>, nothing for any other type. The container, when
  the page has one, is then emptied and the fragment appended.\<close>

definition fragment :: "json \<Rightarrow> markup list" where
  "fragment mediaData =
     (if field mediaData ''type'' = Some (JsStr ''image'') then
        [Img (field mediaData ''url'')
             (if otruthy (field mediaData ''alt'') then field mediaData ''alt''
              else Some (JsStr ''Question media''))
             ''lazy'']
      else if field mediaData ''type'' = Some (JsStr ''video'') then
        [Video (field mediaData ''url'') True ''metadata'']
      else [])"

definition setContainer :: "markup list \<Rightarrow> world \<Rightarrow> world" where
  "setContainer ms w = w\<lparr>page := (page w)\<lparr>container := Some ms\<rparr>\<rparr>"

definition displayMedia :: "json \<Rightarrow> world \<Rightarrow> world" where
  "displayMedia mediaData w =
     (case container (page w) of
        None \<Rightarrow> w
      | Some old \<Rightarrow> setContainer ([] @ fragment mediaData) w)"

definition fallbackMarkup :: "markup list" where
  "fallbackMarkup = [Div ''no-media'' ''No media available'']"

definition displayFallbackMedia :: "world \<Rightarrow> world" where
  "displayFallbackMedia w =
     (case container (page w) of
        None \<Rightarrow> w
      | Some old \<Rightarrow> setContainer fallbackMarkup w)"

section \<open>Media fetcher\<close>

text \<open>The \<open>POST\<close> that \<open>fetch\<close> sends: the form fields and the endpoint.\<close>

definition fetchMedia :: "jval \<Rightarrow> world \<Rightarrow> world" where
  "fetchMedia questionId w =
     w\<lparr>requests := requests w @
        [\<lparr>req_url = ajaxUrl (host w), req_method = ''POST'',
          req_action = ''get_question_acf_media'', req_question_id = questionId,
          req_nonce = nonce (host w)\<rparr>]\<rparr>"

definition loadQuestionMedia :: "jval \<Rightarrow> bool \<Rightarrow> world \<Rightarrow> world" where
  "loadQuestionMedia questionId force w0 =
     (let w = emit (LoadCalled questionId force) w0 in
      if \<not> truthy questionId then w
      else if \<not> force then
        (case getCachedMedia questionId w of
           (cached, w1) \<Rightarrow>
             if jtruthy cached then displayMedia cached w1
             else fetchMedia questionId w1)
      else fetchMedia questionId w)"

text \<open>
  The promise chain behind the request. \<open>parseBody\<close> is \<open>fetch\<close> followed by
  \<open>response.json()\<close>; \<open>onData\<close> is the second \<open>then\<close>, whose reads of
  \<open>data.success\<close> and \<open>data.data.media\<close> can raise; \<open>onError\<close> is the
  \<open>catch\<close> (\<open>config.debug\<close> is off, so nothing is printed). \<open>Inl\<close> is a rejected
  promise.
\<close>

definition parseBody :: "response \<Rightarrow> error + json" where
  "parseBody r =
     (case r of
        Unreachable \<Rightarrow> Inl NetworkFailure
      | Unparsable \<Rightarrow> Inl ParseFailure
      | Body d \<Rightarrow> Inr d)"

definition onData :: "jval \<Rightarrow> json \<Rightarrow> world \<Rightarrow> error + world" where
  "onData questionId d w =
     (case member (Some d) ''success'' of
        Inl e \<Rightarrow> Inl e
      | Inr success \<Rightarrow>
          if \<not> otruthy success then Inr (displayFallbackMedia w)
          else
            (case member (Some d) ''data'' of
               Inl e \<Rightarrow> Inl e
             | Inr dd \<Rightarrow>
                 (case member dd ''media'' of
                    Inl e \<Rightarrow> Inl e
                  | Inr None \<Rightarrow> Inr (displayFallbackMedia w)
                  | Inr (Some media) \<Rightarrow>
                      if jtruthy media
                      then Inr (displayMedia media (cacheMedia questionId media w))
                      else Inr (displayFallbackMedia w))))"

definition onError :: "error \<Rightarrow> world \<Rightarrow> world" where
  "onError e w = displayFallbackMedia w"

definition mediaResponse :: "jval \<Rightarrow> response \<Rightarrow> world \<Rightarrow> error + world" where
  "mediaResponse questionId r w =
     (case parseBody r of
        Inl e \<Rightarrow> Inr (onError e w)
      | Inr d \<Rightarrow>
          (case onData questionId d w of
             Inl e \<Rightarrow> Inr (onError e w)
           | Inr w' \<Rightarrow> Inr w'))"

text \<open>The network answers the \<open>i\<close>-th request, once.\<close>

definition respond :: "nat \<Rightarrow> response \<Rightarrow> world \<Rightarrow> world" where
  "respond i r w =
     (if i < length (requests w) \<and> i \<notin> set (settled w) then
        (case mediaResponse (req_question_id (requests w ! i)) r (w\<lparr>settled := i # settled w\<rparr>) of
           Inr w' \<Rightarrow> w'
         | Inl e \<Rightarrow> w\<lparr>settled := i # settled w\<rparr>)
      else w)"

section \<open>Debouncer\<close>

definition clearTimeout :: "nat \<Rightarrow> world \<Rightarrow> world" where
  "clearTimeout t w = w\<lparr>timers := filter (\<lambda>tm. tid tm \<noteq> t) (timers w)\<rparr>"

text \<open>\<open>setTimeout\<close> returns a fresh id; a negative delay counts as zero. The callback
  is \<open>func(); state.debounceTimers.delete(key)\<close>, so the timer keeps \<open>key\<close> and
  \<open>func\<close>.\<close>

definition setTimeout :: "string \<Rightarrow> action \<Rightarrow> int \<Rightarrow> world \<Rightarrow> nat \<times> world" where
  "setTimeout key func delay w =
     (nextTimer w,
      w\<lparr>timers := timers w @
           [\<lparr>tid = nextTimer w, due = now w + max 0 delay, tkey = key, tfunc = func\<rparr>],
        nextTimer := Suc (nextTimer w)\<rparr>)"

definition debounce :: "string \<Rightarrow> action \<Rightarrow> int \<Rightarrow> world \<Rightarrow> world" where
  "debounce key func delay w =
     (let w1 = (case map_of (debounceTimers w) key of
                  Some t \<Rightarrow> clearTimeout t w
                | None \<Rightarrow> w)
      in case setTimeout key func delay w1 of
           (timer, w2) \<Rightarrow> w2\<lparr>debounceTimers := AList.update key timer (debounceTimers w2)\<rparr>)"

section \<open>Answer watcher\<close>

definition addClass :: "node \<Rightarrow> string \<Rightarrow> world \<Rightarrow> world" where
  "addClass n c w =
     w\<lparr>page := (page w)\<lparr>classesOf := (classesOf (page w))(n := insert c (classesOf (page w) n))\<rparr>\<rparr>"

text \<open>\<open>$('.wpProQuiz_button').prop('disabled', b)\<close>.\<close>

definition setButtons :: "bool \<Rightarrow> world \<Rightarrow> world" where
  "setButtons b w = w\<lparr>page := (page w)\<lparr>buttons := map (\<lambda>_. b) (buttons (page w))\<rparr>\<rparr>"

definition disconnect :: "nat \<Rightarrow> world \<Rightarrow> world" where
  "disconnect oid w =
     (if oid < length (watchers w)
      then w\<lparr>watchers := (watchers w)[oid := (watchers w ! oid)\<lparr>connected := False\<rparr>]\<rparr>
      else w)"

text \<open>Each hint button gets the class and then a click. The trace keeps the click;
  which listeners that click reaches is the browser's dispatch, an event of its own in
  a run.\<close>

definition showHintRequirement :: "node option \<Rightarrow> world \<Rightarrow> world" where
  "showHintRequirement question w =
     (let hintButton = (case question of None \<Rightarrow> [] | Some q \<Rightarrow> tips (page w) q) in
      if hintButton \<noteq> [] then
        fold (\<lambda>t. emit (HintClicked t)) hintButton
          (fold (\<lambda>t. addClass t ''lilac-hint-required'') hintButton w)
      else w)"

definition handleIncorrectAnswer :: "node option \<Rightarrow> node \<Rightarrow> world \<Rightarrow> world" where
  "handleIncorrectAnswer question wrapper w =
     showHintRequirement question (emit NavDisabled (setButtons True w))"

definition handleCorrectAnswer :: "node option \<Rightarrow> node \<Rightarrow> world \<Rightarrow> world" where
  "handleCorrectAnswer question wrapper w =
     emit NavEnabled (setButtons False (addClass wrapper ''lilac-correct-answer'' w))"

text \<open>The body of \<open>mutations.forEach\<close> for the observer \<open>oid\<close>, whose \<open>$question\<close> is
  \<open>question\<close>.\<close>

definition onMutation :: "nat \<Rightarrow> node option \<Rightarrow> mutation \<Rightarrow> world \<Rightarrow> world" where
  "onMutation oid question m w =
     (if mtype m = ''attributes'' \<and> attributeName m = Some ''class'' then
        if ''wpProQuiz_answerIncorrect'' \<in> classesOf (page w) (mtarget m) then
          disconnect oid (handleIncorrectAnswer question (mtarget m) w)
        else if ''wpProQuiz_answerCorrect'' \<in> classesOf (page w) (mtarget m) then
          disconnect oid (handleCorrectAnswer question (mtarget m) w)
        else w
      else w)"

definition observerCallback :: "nat \<Rightarrow> node option \<Rightarrow> mutation list \<Rightarrow> world \<Rightarrow> world" where
  "observerCallback oid question mutations w = fold (onMutation oid question) mutations w"

text \<open>\<open>observer.observe\<close> raises a \<open>TypeError\<close> when \<open>$wrapper[0]\<close> is
  \<open>undefined\<close>; nothing has been changed by then and the observer is not pushed.
  Otherwise the new observer is the next object of \<open>watchers\<close> and its number is
  pushed on \<open>state.observers\<close>.\<close>

definition checkAnswerAndEnforceHint :: "answer_input \<Rightarrow> world \<Rightarrow> error + world" where
  "checkAnswerAndEnforceHint inp w =
     (case inp_wrapper inp of
        None \<Rightarrow> Inl TypeError
      | Some wrapper \<Rightarrow>
          (let observer = length (watchers w) in
           Inr (w\<lparr>watchers := watchers w @
                    [\<lparr>wquestion = inp_question inp, wtarget = wrapper, connected = True\<rparr>],
                  observers := observers w @ [observer]\<rparr>)))"

text \<open>The browser hands a batch of mutation records to an observer that is still
  connected.\<close>

definition deliver :: "nat \<Rightarrow> mutation list \<Rightarrow> world \<Rightarrow> world" where
  "deliver oid mutations w =
     (if oid < length (watchers w) \<and> connected (watchers w ! oid)
      then observerCallback oid (wquestion (watchers w ! oid)) mutations w
      else w)"

section \<open>Listeners, timers firing, start and teardown\<close>

definition navigationAction :: "world \<Rightarrow> world" where
  "navigationAction w =
     (case getCurrentQuestionId w of
        (questionId, w1) \<Rightarrow>
          if truthy questionId \<and> questionId \<noteq> currentQuestion w1
          then loadQuestionMedia questionId False (w1\<lparr>currentQuestion := questionId\<rparr>)
          else w1)"

text \<open>A closure returns, or raises; \<open>Inl\<close> is the exception.\<close>

fun runAction :: "action \<Rightarrow> world \<Rightarrow> error + world" where
  "runAction Navigate w = Inr (navigationAction w)"
| "runAction (CheckAnswer inp) w = checkAnswerAndEnforceHint inp w"

text \<open>The pending timeout \<open>t\<close> fires: it leaves the browser's list and its callback
  \<open>func(); state.debounceTimers.delete(key)\<close> runs. When \<open>func\<close> raises, the
  callback ends there and the key is not deleted; the closures of this script raise
  before they have changed anything, so the state is then the one \<open>func\<close> was
  called in.\<close>

definition fire :: "nat \<Rightarrow> world \<Rightarrow> world" where
  "fire t w =
     (case List.find (\<lambda>tm. tid tm = t) (timers w) of
        Some tm \<Rightarrow>
          (let w0 = emit (Ran (tkey tm) (tfunc tm)) (clearTimeout t w) in
           case runAction (tfunc tm) w0 of
             Inr w1 \<Rightarrow> w1\<lparr>debounceTimers := AList.delete (tkey tm) (debounceTimers w1)\<rparr>
           | Inl e \<Rightarrow> w0)
      | None \<Rightarrow> w)"

text \<open>The clock moves on to \<open>t\<close> and the event loop runs every timeout that is due,
  earliest first, in order of creation among equals.\<close>

definition dueTimers :: "world \<Rightarrow> timer list" where
  "dueTimers w = sort_key due (filter (\<lambda>tm. due tm \<le> now w) (timers w))"

definition advance :: "int \<Rightarrow> world \<Rightarrow> world" where
  "advance t w =
     (let w1 = w\<lparr>now := max (now w) t\<rparr>
      in fold fire (map tid (dueTimers w1)) w1)"

definition digitsOf :: string where
  "digitsOf = ''0123456789''"

fun showNat :: "nat \<Rightarrow> string" where
  "showNat n = (if n < 10 then [digitsOf ! n] else showNat (n div 10) @ [digitsOf ! (n mod 10)])"

definition showInt :: "int \<Rightarrow> string" where
  "showInt i = (if i < 0 then CHR ''-'' # showNat (nat (- i)) else showNat (nat i))"

text \<open>The two delegated click listeners.\<close>

definition navigationClick :: "world \<Rightarrow> world" where
  "navigationClick w = debounce ''navigation'' Navigate debounceDelay w"

definition inputClick :: "answer_input \<Rightarrow> world \<Rightarrow> world" where
  "inputClick inp w =
     debounce (''answer-check-'' @ showInt (inp_index inp)) (CheckAnswer inp) 50 w"

text \<open>\<open>initialize\<close> asks for another animation frame while the quiz root is missing;
  the browser then calls it again. The listeners exist from the moment \<open>initialized\<close>
  is set, the one on answer inputs only when the host enforces hints.\<close>

definition initialize :: "world \<Rightarrow> world" where
  "initialize w =
     (if initialized w then w
      else if \<not> quizRoot (page w) then w
      else
        (case getCurrentQuestionId (w\<lparr>initialized := True\<rparr>) of
           (currentQuestionId, w1) \<Rightarrow>
             if truthy currentQuestionId then loadQuestionMedia currentQuestionId False w1
             else w1))"

definition cleanup :: "world \<Rightarrow> world" where
  "cleanup w =
     (let w1 = fold clearTimeout (map snd (debounceTimers w)) w;
          w2 = w1\<lparr>debounceTimers := []\<rparr>;
          w3 = fold disconnect (observers w2) w2;
          w4 = w3\<lparr>observers := []\<rparr>
      in w4\<lparr>mediaCache := Map.empty\<rparr>)"

section \<open>Runs of the script\<close>

text \<open>What can happen to the loaded script: time passes, \<open>initialize\<close> is called, a
  click reaches one of the listeners, an observer gets a batch, a request is answered,
  the page unloads, or the quiz plugin changes the page.\<close>

datatype event =
    Advance int
  | Initialize
  | NavigationClick
  | InputClick answer_input
  | Mutations nat "mutation list"
  | Response nat response
  | Unload
  | HostPage page

fun step :: "event \<Rightarrow> world \<Rightarrow> world" where
  "step (Advance t) w = advance t w"
| "step Initialize w = initialize w"
| "step NavigationClick w = (if initialized w then navigationClick w else w)"
| "step (InputClick inp) w =
     (if initialized w \<and> enforceHint (host w) then inputClick inp w else w)"
| "step (Mutations oid ms) w = deliver oid ms w"
| "step (Response i r) w = respond i r w"
| "step Unload w = cleanup w"
| "step (HostPage p) w = w\<lparr>page := p\<rparr>"

inductive reachable :: "world \<Rightarrow> bool" where
  reach_start: "reachable (initial h p t)"
| reach_step: "reachable w \<Longrightarrow> reachable (step e w)"

section \<open>The statements of the specification\<close>

text \<open>
  The locator as the specification describes it, to be compared with \<open>probe\<close>: the
  strategies in priority order, and the identifier of the element found. \<open>located\<close>
  takes as third strategy the first list item inside a question list;
  \<open>claimedLocated\<close> takes the first list item overall, as the specification words it.
\<close>

definition isListItem :: "element \<Rightarrow> bool" where
  "isListItem e = (''wpProQuiz_listItem'' \<in> set (el_classes e))"

definition itemId :: "element \<Rightarrow> jval" where
  "itemId e =
     (if truthy (el_data_id e) then el_data_id e
      else if truthy (descendantId e) then descendantId e
      else JNum (int (el_index e) + 1))"

definition located :: "element list \<Rightarrow> element option" where
  "located els =
     (case List.find (\<lambda>e. isListItem e \<and> ''wpProQuiz_reviewQuestionTarget'' \<in> set (el_classes e)) els of
        Some e \<Rightarrow> Some e
      | None \<Rightarrow>
          (case List.find (\<lambda>e. isListItem e \<and> el_visible e) els of
             Some e \<Rightarrow> Some e
           | None \<Rightarrow>
               List.find (\<lambda>e. isListItem e \<and> ''wpProQuiz_questionList'' \<in> set (el_ancestor_classes e)) els))"

definition claimedLocated :: "element list \<Rightarrow> element option" where
  "claimedLocated els =
     (case List.find (\<lambda>e. isListItem e \<and> ''wpProQuiz_reviewQuestionTarget'' \<in> set (el_classes e)) els of
        Some e \<Rightarrow> Some e
      | None \<Rightarrow>
          (case List.find (\<lambda>e. isListItem e \<and> el_visible e) els of
             Some e \<Rightarrow> Some e
           | None \<Rightarrow> List.find isListItem els))"

text \<open>What the handler's test \<open>data.success && data.data.media\<close> lets through: the
  value of \<open>data.data.media\<close> of a parsed body whose \<open>success\<close> and that value are
  truthy, whatever its shape.\<close>

definition acceptedMedia :: "response \<Rightarrow> json option" where
  "acceptedMedia r =
     (case r of
        Body d \<Rightarrow>
          if otruthy (field d ''success'') then
            (case field d ''data'' of
               Some dd \<Rightarrow>
                 (case field dd ''media'' of
                    Some m \<Rightarrow> if jtruthy m then Some m else None
                  | None \<Rightarrow> None)
             | None \<Rightarrow> None)
          else None
      | _ \<Rightarrow> None)"


text \<open>The timeouts pending under a name.\<close>

definition pendingFor :: "string \<Rightarrow> world \<Rightarrow> timer list" where
  "pendingFor key w = filter (\<lambda>tm. tkey tm = key) (timers w)"




text \<open>Whether a closure returns, and the state it leaves: its result, or the state it
  was called in when it raises.\<close>

fun completes :: "action \<Rightarrow> bool" where
  "completes Navigate = True"
| "completes (CheckAnswer inp) = (inp_wrapper inp \<noteq> None)"

definition afterAction :: "action \<Rightarrow> world \<Rightarrow> world" where
  "afterAction a w = (case runAction a w of Inr w1 \<Rightarrow> w1 | Inl e \<Rightarrow> w)"

section \<open>Invariants of a run\<close>

text \<open>Every pending timeout is the one registered under its key, and ids are fresh.\<close>

definition timersOk :: "world \<Rightarrow> bool" where
  "timersOk w =
     (distinct (map tid (timers w))
      \<and> (\<forall>tm\<in>set (timers w).
            map_of (debounceTimers w) (tkey tm) = Some (tid tm) \<and> tid tm < nextTimer w))"

text \<open>Every connected observer is listed in \<open>state.observers\<close>.\<close>

definition observersOk :: "world \<Rightarrow> bool" where
  "observersOk w = (\<forall>i<length (watchers w). connected (watchers w ! i) \<longrightarrow> i \<in> set (observers w))"

text \<open>Requests carry, and cache entries lie under, a truthy question id; cached
  payloads are truthy.\<close>

definition cacheOk :: "world \<Rightarrow> bool" where
  "cacheOk w =
     ((\<forall>k e. mediaCache w k = Some e \<longrightarrow> truthy k \<and> jtruthy (data e))
      \<and> (\<forall>r\<in>set (requests w). truthy (req_question_id r)))"

text \<open>A timeout id that has been handed out and is not pending; an observer that is
  disconnected. Neither changes back in a run.\<close>

definition stale :: "nat \<Rightarrow> world \<Rightarrow> bool" where
  "stale t w = (t < nextTimer w \<and> t \<notin> set (map tid (timers w)))"

definition detached :: "nat \<Rightarrow> world \<Rightarrow> bool" where
  "detached i w = (i < length (watchers w) \<and> \<not> connected (watchers w ! i))"

fun run :: "event list \<Rightarrow> world \<Rightarrow> world" where
  "run [] w = w"
| "run (e # es) w = run es (step e w)"

section \<open>Sample pages\<close>

text \<open>A page with one visible list item at sibling position 2 that carries no id, a
  media container with old content, an answer wrapper (node 5) marked incorrect inside
  a question (node 1) whose hint button is node 9, and two navigation buttons.\<close>

definition sampleHost :: host where
  "sampleHost = \<lparr>ajaxUrl = ''/wp-admin/admin-ajax.php'', nonce = ''4f2a'', enforceHint = True\<rparr>"

definition plainItem :: element where
  "plainItem =
     \<lparr>el_classes = [''wpProQuiz_listItem''], el_visible = True,
      el_ancestor_classes = [''wpProQuiz_list''], el_data_id = JUndefined,
      el_descendant_ids = [], el_index = 2\<rparr>"

definition samplePage :: page where
  "samplePage =
     \<lparr>elements = [plainItem], container = Some [Foreign ''old''],
      classesOf = (\<lambda>n. if n = 5 then {''wpProQuiz_questionListItem'', ''wpProQuiz_answerIncorrect''} else {}),
      tips = (\<lambda>n. if n = 1 then [9] else []),
      buttons = [False, False], quizRoot = True\<rparr>"

definition sampleWorld :: world where
  "sampleWorld = initial sampleHost samplePage 0"

text \<open>The same page with the list item hidden, with the list item carrying the id
  \<open>0\<close>, and with question 3 already recorded as current.\<close>

definition hiddenWorld :: world where
  "hiddenWorld = initial sampleHost (samplePage\<lparr>elements := [plainItem\<lparr>el_visible := False\<rparr>]\<rparr>) 0"

definition zeroIdWorld :: world where
  "zeroIdWorld = initial sampleHost (samplePage\<lparr>elements := [plainItem\<lparr>el_data_id := JNum 0\<rparr>]\<rparr>) 0"

definition visitedWorld :: world where
  "visitedWorld = sampleWorld\<lparr>currentQuestion := JNum 3\<rparr>"

definition audioMedia :: json where
  "audioMedia = JsObj [(''type'', JsStr ''audio''), (''url'', JsStr ''clip.mp3'')]"

definition imageMedia :: json where
  "imageMedia = JsObj [(''type'', JsStr ''image''), (''url'', JsStr ''sign.png'')]"



definition imageResponse :: response where
  "imageResponse =
     Body (JsObj [(''success'', JsBool True), (''data'', JsObj [(''media'', imageMedia)])])"

definition sampleInput :: answer_input where
  "sampleInput = \<lparr>inp_question = Some 1, inp_index = 0, inp_wrapper = Some 5\<rparr>"




definition classChange :: mutation where
  "classChange = \<lparr>mtype = ''attributes'', attributeName = Some ''class'', mtarget = 5\<rparr>"


text \<open>The sample page after the user clicked an answer input and the debounced check
  armed an observer on the answer's wrapper; and the same after a navigation click,
  with the media answer in the cache.\<close>

definition armedWorld :: world where
  "armedWorld = run [Initialize, InputClick sampleInput, Advance 50] sampleWorld"

definition busyWorld :: world where
  "busyWorld = run [NavigationClick, Response 0 imageResponse] armedWorld"

section \<open>What each operation leaves alone\<close>

lemma fold_preserves: "(\<And>x w. g (f x w) = g w) \<Longrightarrow> g (fold f xs w) = g w"
  by (induction xs arbitrary: w) simp_all

lemma emit_fields [simp]:
  "now (emit e w) = now w"
  "host (emit e w) = host w"
  "page (emit e w) = page w"
  "initialized (emit e w) = initialized w"
  "currentQuestion (emit e w) = currentQuestion w"
  "mediaCache (emit e w) = mediaCache w"
  "observers (emit e w) = observers w"
  "debounceTimers (emit e w) = debounceTimers w"
  "timers (emit e w) = timers w"
  "nextTimer (emit e w) = nextTimer w"
  "watchers (emit e w) = watchers w"
  "requests (emit e w) = requests w"
  "settled (emit e w) = settled w"
  by (simp_all add: emit_def)

lemma cacheMedia_fields [simp]:
  "now (cacheMedia q m w) = now w"
  "host (cacheMedia q m w) = host w"
  "page (cacheMedia q m w) = page w"
  "initialized (cacheMedia q m w) = initialized w"
  "currentQuestion (cacheMedia q m w) = currentQuestion w"
  "observers (cacheMedia q m w) = observers w"
  "debounceTimers (cacheMedia q m w) = debounceTimers w"
  "timers (cacheMedia q m w) = timers w"
  "nextTimer (cacheMedia q m w) = nextTimer w"
  "watchers (cacheMedia q m w) = watchers w"
  "requests (cacheMedia q m w) = requests w"
  "settled (cacheMedia q m w) = settled w"
  "trace (cacheMedia q m w) = trace w"
  by (simp_all add: cacheMedia_def)

lemma getCachedMedia_fields [simp]:
  "now (snd (getCachedMedia q w)) = now w"
  "host (snd (getCachedMedia q w)) = host w"
  "page (snd (getCachedMedia q w)) = page w"
  "initialized (snd (getCachedMedia q w)) = initialized w"
  "currentQuestion (snd (getCachedMedia q w)) = currentQuestion w"
  "observers (snd (getCachedMedia q w)) = observers w"
  "debounceTimers (snd (getCachedMedia q w)) = debounceTimers w"
  "timers (snd (getCachedMedia q w)) = timers w"
  "nextTimer (snd (getCachedMedia q w)) = nextTimer w"
  "watchers (snd (getCachedMedia q w)) = watchers w"
  "requests (snd (getCachedMedia q w)) = requests w"
  "settled (snd (getCachedMedia q w)) = settled w"
  "trace (snd (getCachedMedia q w)) = trace w"
  by (simp_all add: getCachedMedia_def split: option.splits)

lemma setContainer_fields [simp]:
  "now (setContainer ms w) = now w"
  "host (setContainer ms w) = host w"
  "initialized (setContainer ms w) = initialized w"
  "currentQuestion (setContainer ms w) = currentQuestion w"
  "mediaCache (setContainer ms w) = mediaCache w"
  "observers (setContainer ms w) = observers w"
  "debounceTimers (setContainer ms w) = debounceTimers w"
  "timers (setContainer ms w) = timers w"
  "nextTimer (setContainer ms w) = nextTimer w"
  "watchers (setContainer ms w) = watchers w"
  "requests (setContainer ms w) = requests w"
  "settled (setContainer ms w) = settled w"
  "trace (setContainer ms w) = trace w"
  by (simp_all add: setContainer_def)

lemma displayMedia_fields [simp]:
  "now (displayMedia m w) = now w"
  "host (displayMedia m w) = host w"
  "initialized (displayMedia m w) = initialized w"
  "currentQuestion (displayMedia m w) = currentQuestion w"
  "mediaCache (displayMedia m w) = mediaCache w"
  "observers (displayMedia m w) = observers w"
  "debounceTimers (displayMedia m w) = debounceTimers w"
  "timers (displayMedia m w) = timers w"
  "nextTimer (displayMedia m w) = nextTimer w"
  "watchers (displayMedia m w) = watchers w"
  "requests (displayMedia m w) = requests w"
  "settled (displayMedia m w) = settled w"
  "trace (displayMedia m w) = trace w"
  by (simp_all add: displayMedia_def split: option.splits)

lemma displayFallbackMedia_fields [simp]:
  "now (displayFallbackMedia w) = now w"
  "host (displayFallbackMedia w) = host w"
  "initialized (displayFallbackMedia w) = initialized w"
  "currentQuestion (displayFallbackMedia w) = currentQuestion w"
  "mediaCache (displayFallbackMedia w) = mediaCache w"
  "observers (displayFallbackMedia w) = observers w"
  "debounceTimers (displayFallbackMedia w) = debounceTimers w"
  "timers (displayFallbackMedia w) = timers w"
  "nextTimer (displayFallbackMedia w) = nextTimer w"
  "watchers (displayFallbackMedia w) = watchers w"
  "requests (displayFallbackMedia w) = requests w"
  "settled (displayFallbackMedia w) = settled w"
  "trace (displayFallbackMedia w) = trace w"
  by (simp_all add: displayFallbackMedia_def split: option.splits)

lemma fetchMedia_fields [simp]:
  "now (fetchMedia q w) = now w"
  "host (fetchMedia q w) = host w"
  "page (fetchMedia q w) = page w"
  "initialized (fetchMedia q w) = initialized w"
  "currentQuestion (fetchMedia q w) = currentQuestion w"
  "mediaCache (fetchMedia q w) = mediaCache w"
  "observers (fetchMedia q w) = observers w"
  "debounceTimers (fetchMedia q w) = debounceTimers w"
  "timers (fetchMedia q w) = timers w"
  "nextTimer (fetchMedia q w) = nextTimer w"
  "watchers (fetchMedia q w) = watchers w"
  "settled (fetchMedia q w) = settled w"
  "trace (fetchMedia q w) = trace w"
  by (simp_all add: fetchMedia_def)

lemma loadQuestionMedia_fields [simp]:
  "now (loadQuestionMedia q f w) = now w"
  "host (loadQuestionMedia q f w) = host w"
  "initialized (loadQuestionMedia q f w) = initialized w"
  "currentQuestion (loadQuestionMedia q f w) = currentQuestion w"
  "observers (loadQuestionMedia q f w) = observers w"
  "debounceTimers (loadQuestionMedia q f w) = debounceTimers w"
  "timers (loadQuestionMedia q f w) = timers w"
  "nextTimer (loadQuestionMedia q f w) = nextTimer w"
  "watchers (loadQuestionMedia q f w) = watchers w"
  "settled (loadQuestionMedia q f w) = settled w"
  by (simp_all add: loadQuestionMedia_def Let_def split_beta)

lemma clearTimeout_fields [simp]:
  "now (clearTimeout t w) = now w"
  "host (clearTimeout t w) = host w"
  "page (clearTimeout t w) = page w"
  "initialized (clearTimeout t w) = initialized w"
  "currentQuestion (clearTimeout t w) = currentQuestion w"
  "mediaCache (clearTimeout t w) = mediaCache w"
  "observers (clearTimeout t w) = observers w"
  "debounceTimers (clearTimeout t w) = debounceTimers w"
  "nextTimer (clearTimeout t w) = nextTimer w"
  "watchers (clearTimeout t w) = watchers w"
  "requests (clearTimeout t w) = requests w"
  "settled (clearTimeout t w) = settled w"
  "trace (clearTimeout t w) = trace w"
  by (simp_all add: clearTimeout_def)

lemma setTimeout_fields [simp]:
  "now (snd (setTimeout k f d w)) = now w"
  "host (snd (setTimeout k f d w)) = host w"
  "page (snd (setTimeout k f d w)) = page w"
  "initialized (snd (setTimeout k f d w)) = initialized w"
  "currentQuestion (snd (setTimeout k f d w)) = currentQuestion w"
  "mediaCache (snd (setTimeout k f d w)) = mediaCache w"
  "observers (snd (setTimeout k f d w)) = observers w"
  "debounceTimers (snd (setTimeout k f d w)) = debounceTimers w"
  "watchers (snd (setTimeout k f d w)) = watchers w"
  "requests (snd (setTimeout k f d w)) = requests w"
  "settled (snd (setTimeout k f d w)) = settled w"
  "trace (snd (setTimeout k f d w)) = trace w"
  by (simp_all add: setTimeout_def)

lemma debounce_fields [simp]:
  "now (debounce k f d w) = now w"
  "host (debounce k f d w) = host w"
  "page (debounce k f d w) = page w"
  "initialized (debounce k f d w) = initialized w"
  "currentQuestion (debounce k f d w) = currentQuestion w"
  "mediaCache (debounce k f d w) = mediaCache w"
  "observers (debounce k f d w) = observers w"
  "watchers (debounce k f d w) = watchers w"
  "requests (debounce k f d w) = requests w"
  "settled (debounce k f d w) = settled w"
  "trace (debounce k f d w) = trace w"
  by (simp_all add: debounce_def Let_def split_beta split: option.splits)

lemma addClass_fields [simp]:
  "now (addClass n c w) = now w"
  "host (addClass n c w) = host w"
  "initialized (addClass n c w) = initialized w"
  "currentQuestion (addClass n c w) = currentQuestion w"
  "mediaCache (addClass n c w) = mediaCache w"
  "observers (addClass n c w) = observers w"
  "debounceTimers (addClass n c w) = debounceTimers w"
  "timers (addClass n c w) = timers w"
  "nextTimer (addClass n c w) = nextTimer w"
  "watchers (addClass n c w) = watchers w"
  "requests (addClass n c w) = requests w"
  "settled (addClass n c w) = settled w"
  "trace (addClass n c w) = trace w"
  by (simp_all add: addClass_def)

lemma setButtons_fields [simp]:
  "now (setButtons b w) = now w"
  "host (setButtons b w) = host w"
  "initialized (setButtons b w) = initialized w"
  "currentQuestion (setButtons b w) = currentQuestion w"
  "mediaCache (setButtons b w) = mediaCache w"
  "observers (setButtons b w) = observers w"
  "debounceTimers (setButtons b w) = debounceTimers w"
  "timers (setButtons b w) = timers w"
  "nextTimer (setButtons b w) = nextTimer w"
  "watchers (setButtons b w) = watchers w"
  "requests (setButtons b w) = requests w"
  "settled (setButtons b w) = settled w"
  "trace (setButtons b w) = trace w"
  by (simp_all add: setButtons_def)

lemma disconnect_fields [simp]:
  "now (disconnect oid w) = now w"
  "host (disconnect oid w) = host w"
  "page (disconnect oid w) = page w"
  "initialized (disconnect oid w) = initialized w"
  "currentQuestion (disconnect oid w) = currentQuestion w"
  "mediaCache (disconnect oid w) = mediaCache w"
  "observers (disconnect oid w) = observers w"
  "debounceTimers (disconnect oid w) = debounceTimers w"
  "timers (disconnect oid w) = timers w"
  "nextTimer (disconnect oid w) = nextTimer w"
  "requests (disconnect oid w) = requests w"
  "settled (disconnect oid w) = settled w"
  "trace (disconnect oid w) = trace w"
  by (simp_all add: disconnect_def)

lemma showHintRequirement_fields [simp]:
  "now (showHintRequirement q w) = now w"
  "host (showHintRequirement q w) = host w"
  "initialized (showHintRequirement q w) = initialized w"
  "currentQuestion (showHintRequirement q w) = currentQuestion w"
  "mediaCache (showHintRequirement q w) = mediaCache w"
  "observers (showHintRequirement q w) = observers w"
  "debounceTimers (showHintRequirement q w) = debounceTimers w"
  "timers (showHintRequirement q w) = timers w"
  "nextTimer (showHintRequirement q w) = nextTimer w"
  "watchers (showHintRequirement q w) = watchers w"
  "requests (showHintRequirement q w) = requests w"
  "settled (showHintRequirement q w) = settled w"
  by (simp_all add: showHintRequirement_def Let_def fold_preserves)

lemma handleIncorrectAnswer_fields [simp]:
  "now (handleIncorrectAnswer q n w) = now w"
  "host (handleIncorrectAnswer q n w) = host w"
  "initialized (handleIncorrectAnswer q n w) = initialized w"
  "currentQuestion (handleIncorrectAnswer q n w) = currentQuestion w"
  "mediaCache (handleIncorrectAnswer q n w) = mediaCache w"
  "observers (handleIncorrectAnswer q n w) = observers w"
  "debounceTimers (handleIncorrectAnswer q n w) = debounceTimers w"
  "timers (handleIncorrectAnswer q n w) = timers w"
  "nextTimer (handleIncorrectAnswer q n w) = nextTimer w"
  "watchers (handleIncorrectAnswer q n w) = watchers w"
  "requests (handleIncorrectAnswer q n w) = requests w"
  "settled (handleIncorrectAnswer q n w) = settled w"
  by (simp_all add: handleIncorrectAnswer_def)

lemma handleCorrectAnswer_fields [simp]:
  "now (handleCorrectAnswer q n w) = now w"
  "host (handleCorrectAnswer q n w) = host w"
  "initialized (handleCorrectAnswer q n w) = initialized w"
  "currentQuestion (handleCorrectAnswer q n w) = currentQuestion w"
  "mediaCache (handleCorrectAnswer q n w) = mediaCache w"
  "observers (handleCorrectAnswer q n w) = observers w"
  "debounceTimers (handleCorrectAnswer q n w) = debounceTimers w"
  "timers (handleCorrectAnswer q n w) = timers w"
  "nextTimer (handleCorrectAnswer q n w) = nextTimer w"
  "watchers (handleCorrectAnswer q n w) = watchers w"
  "requests (handleCorrectAnswer q n w) = requests w"
  "settled (handleCorrectAnswer q n w) = settled w"
  by (simp_all add: handleCorrectAnswer_def)

lemma onMutation_fields [simp]:
  "now (onMutation oid q m w) = now w"
  "host (onMutation oid q m w) = host w"
  "initialized (onMutation oid q m w) = initialized w"
  "currentQuestion (onMutation oid q m w) = currentQuestion w"
  "mediaCache (onMutation oid q m w) = mediaCache w"
  "observers (onMutation oid q m w) = observers w"
  "debounceTimers (onMutation oid q m w) = debounceTimers w"
  "timers (onMutation oid q m w) = timers w"
  "nextTimer (onMutation oid q m w) = nextTimer w"
  "requests (onMutation oid q m w) = requests w"
  "settled (onMutation oid q m w) = settled w"
  by (simp_all add: onMutation_def)

lemma observerCallback_fields [simp]:
  "now (observerCallback oid q ms w) = now w"
  "host (observerCallback oid q ms w) = host w"
  "initialized (observerCallback oid q ms w) = initialized w"
  "currentQuestion (observerCallback oid q ms w) = currentQuestion w"
  "mediaCache (observerCallback oid q ms w) = mediaCache w"
  "observers (observerCallback oid q ms w) = observers w"
  "debounceTimers (observerCallback oid q ms w) = debounceTimers w"
  "timers (observerCallback oid q ms w) = timers w"
  "nextTimer (observerCallback oid q ms w) = nextTimer w"
  "requests (observerCallback oid q ms w) = requests w"
  "settled (observerCallback oid q ms w) = settled w"
  by (simp_all add: observerCallback_def fold_preserves)

lemma deliver_fields [simp]:
  "now (deliver oid ms w) = now w"
  "host (deliver oid ms w) = host w"
  "initialized (deliver oid ms w) = initialized w"
  "currentQuestion (deliver oid ms w) = currentQuestion w"
  "mediaCache (deliver oid ms w) = mediaCache w"
  "observers (deliver oid ms w) = observers w"
  "debounceTimers (deliver oid ms w) = debounceTimers w"
  "timers (deliver oid ms w) = timers w"
  "nextTimer (deliver oid ms w) = nextTimer w"
  "requests (deliver oid ms w) = requests w"
  "settled (deliver oid ms w) = settled w"
  by (simp_all add: deliver_def)

lemma navigationAction_fields [simp]:
  "now (navigationAction w) = now w"
  "host (navigationAction w) = host w"
  "initialized (navigationAction w) = initialized w"
  "observers (navigationAction w) = observers w"
  "debounceTimers (navigationAction w) = debounceTimers w"
  "timers (navigationAction w) = timers w"
  "nextTimer (navigationAction w) = nextTimer w"
  "watchers (navigationAction w) = watchers w"
  "settled (navigationAction w) = settled w"
  by (simp_all add: navigationAction_def getCurrentQuestionId_def)

lemma runAction_afterAction:
  "runAction a w = (if completes a then Inr (afterAction a w) else Inl TypeError)"
  by (cases a) (auto simp: afterAction_def checkAnswerAndEnforceHint_def Let_def split: option.splits)

lemma afterAction_Navigate [simp]: "afterAction Navigate w = navigationAction w"
  by (simp add: afterAction_def)

lemma afterAction_CheckAnswer:
  "afterAction (CheckAnswer inp) w =
     (case inp_wrapper inp of
        None \<Rightarrow> w
      | Some wrapper \<Rightarrow>
          w\<lparr>watchers := watchers w @
               [\<lparr>wquestion = inp_question inp, wtarget = wrapper, connected = True\<rparr>],
            observers := observers w @ [length (watchers w)]\<rparr>)"
  by (simp add: afterAction_def checkAnswerAndEnforceHint_def Let_def split: option.splits)

lemma afterAction_fields [simp]:
  "now (afterAction a w) = now w"
  "host (afterAction a w) = host w"
  "initialized (afterAction a w) = initialized w"
  "debounceTimers (afterAction a w) = debounceTimers w"
  "timers (afterAction a w) = timers w"
  "nextTimer (afterAction a w) = nextTimer w"
  "settled (afterAction a w) = settled w"
  by (cases a; simp add: afterAction_CheckAnswer split: option.splits)+

lemma fire_afterAction:
  "fire t w =
     (case List.find (\<lambda>tm. tid tm = t) (timers w) of
        Some tm \<Rightarrow>
          if completes (tfunc tm) then
            (afterAction (tfunc tm) (emit (Ran (tkey tm) (tfunc tm)) (clearTimeout t w)))
              \<lparr>debounceTimers := AList.delete (tkey tm) (debounceTimers w)\<rparr>
          else emit (Ran (tkey tm) (tfunc tm)) (clearTimeout t w)
      | None \<Rightarrow> w)"
  by (simp add: fire_def Let_def runAction_afterAction split: option.splits)

lemma fire_fields [simp]:
  "now (fire t w) = now w"
  "host (fire t w) = host w"
  "initialized (fire t w) = initialized w"
  "nextTimer (fire t w) = nextTimer w"
  "settled (fire t w) = settled w"
  by (simp_all add: fire_afterAction split: option.splits)

lemma advance_fields [simp]:
  "host (advance t w) = host w"
  "initialized (advance t w) = initialized w"
  "nextTimer (advance t w) = nextTimer w"
  "settled (advance t w) = settled w"
  by (simp_all add: advance_def Let_def fold_preserves)

lemma initialize_fields [simp]:
  "now (initialize w) = now w"
  "host (initialize w) = host w"
  "currentQuestion (initialize w) = currentQuestion w"
  "observers (initialize w) = observers w"
  "debounceTimers (initialize w) = debounceTimers w"
  "timers (initialize w) = timers w"
  "nextTimer (initialize w) = nextTimer w"
  "watchers (initialize w) = watchers w"
  "settled (initialize w) = settled w"
  by (simp_all add: initialize_def getCurrentQuestionId_def)

lemma cleanup_fields [simp]:
  "now (cleanup w) = now w"
  "host (cleanup w) = host w"
  "page (cleanup w) = page w"
  "initialized (cleanup w) = initialized w"
  "currentQuestion (cleanup w) = currentQuestion w"
  "nextTimer (cleanup w) = nextTimer w"
  "requests (cleanup w) = requests w"
  "settled (cleanup w) = settled w"
  "trace (cleanup w) = trace w"
  by (simp_all add: cleanup_def Let_def fold_preserves)

section \<open>Media cache: store, read, expiry\<close>

text \<open>
  C3. A payload stored under a key is what a read of that key returns right away. A
  read at time \<open>t\<close> of an entry stored at time \<open>now w\<close> returns the payload when
  \<open>t - now w < cacheTimeout\<close>; otherwise it returns \<open>null\<close> and the key is gone
  from the cache. The same holds for any entry found in the cache, whatever happened
  since it was stored.
\<close>

theorem cache_put_get:
  "getCachedMedia k (cacheMedia k v w) = (v, cacheMedia k v w)
   \<and> getCachedMedia k ((cacheMedia k v w)\<lparr>now := t\<rparr>) =
       (if t - now w < cacheTimeout then (v, (cacheMedia k v w)\<lparr>now := t\<rparr>)
        else (JsNull, (cacheMedia k v w)\<lparr>now := t, mediaCache := (mediaCache w)(k := None)\<rparr>))
   \<and> (\<forall>e. mediaCache w k = Some e \<longrightarrow>
         getCachedMedia k w =
           (if now w - timestamp e < cacheTimeout then (data e, w)
            else (JsNull, w\<lparr>mediaCache := (mediaCache w)(k := None)\<rparr>)))
   \<and> mediaCache (snd (getCachedMedia k w)) k =
        (case mediaCache w k of
           Some e \<Rightarrow> if now w - timestamp e < cacheTimeout then Some e else None
         | None \<Rightarrow> None)"
  by (auto simp: getCachedMedia_def cacheMedia_def cacheTimeout_def split: option.splits)

theorem cache_put_get_witness:
  "mediaCache ((cacheMedia (JNum 7) imageMedia sampleWorld)\<lparr>now := 30000\<rparr>) (JNum 7)
     = Some \<lparr>data = imageMedia, timestamp = 0\<rparr>
   \<and> fst (getCachedMedia (JNum 7) ((cacheMedia (JNum 7) imageMedia sampleWorld)\<lparr>now := 30000\<rparr>)) = JsNull
   \<and> mediaCache (snd (getCachedMedia (JNum 7) ((cacheMedia (JNum 7) imageMedia sampleWorld)\<lparr>now := 30000\<rparr>))) (JNum 7) = None
   \<and> fst (getCachedMedia (JNum 7) ((cacheMedia (JNum 7) imageMedia sampleWorld)\<lparr>now := 29999\<rparr>)) = imageMedia"
proof -
  let ?w = "\<lambda>t. (cacheMedia (JNum 7) imageMedia sampleWorld)\<lparr>now := t\<rparr>"
  have e: "mediaCache (?w t) (JNum 7) = Some \<lparr>data = imageMedia, timestamp = 0\<rparr>" for t
    by (simp add: cacheMedia_def sampleWorld_def initial_def)
  have late: "\<not> now (?w 30000) - timestamp \<lparr>data = imageMedia, timestamp = 0\<rparr> < cacheTimeout"
    and early: "now (?w 29999) - timestamp \<lparr>data = imageMedia, timestamp = 0\<rparr> < cacheTimeout"
    by (simp_all add: cacheTimeout_def)
  from cache_put_get [where k = "JNum 7" and w = "?w 30000"]
       cache_put_get [where k = "JNum 7" and w = "?w 29999"] e late early
  show ?thesis by simp
qed

section \<open>Question locator\<close>

lemma questionIdOf_itemId: "questionIdOf e = itemId e"
  by (simp add: questionIdOf_def itemId_def jor_def)

lemma matches_selectors:
  "matches \<lparr>sel_classes = [''wpProQuiz_listItem'', ''wpProQuiz_reviewQuestionTarget''],
       sel_visible = False, sel_ancestor = None\<rparr> =
     (\<lambda>e. isListItem e \<and> ''wpProQuiz_reviewQuestionTarget'' \<in> set (el_classes e))"
  "matches \<lparr>sel_classes = [''wpProQuiz_listItem''], sel_visible = True, sel_ancestor = None\<rparr> =
     (\<lambda>e. isListItem e \<and> el_visible e)"
  "matches \<lparr>sel_classes = [''wpProQuiz_listItem''], sel_visible = False,
       sel_ancestor = Some ''wpProQuiz_questionList''\<rparr> =
     (\<lambda>e. isListItem e \<and> ''wpProQuiz_questionList'' \<in> set (el_ancestor_classes e))"
  by (rule ext, simp add: matches_def isListItem_def)+

lemma probe_located:
  "probe selectors els = (case located els of Some e \<Rightarrow> itemId e | None \<Rightarrow> JNull)"
  by (simp add: selectors_def located_def matches_selectors questionIdOf_itemId
      split: option.splits)

lemma located_without_items:
  assumes "\<forall>e\<in>set els. \<not> isListItem e"
  shows "located els = None"
proof -
  have "List.find (\<lambda>e. isListItem e \<and> Q e) els = None" for Q
    using assms by (auto simp: find_None_iff)
  then show ?thesis by (simp add: located_def)
qed

text \<open>
  C7, as the specification words it: the third strategy is the first list item overall.
  On a page whose only list item is hidden and lies outside any question list, that
  reading yields 3, and the code yields \<open>null\<close>.
\<close>

theorem first_item_overall_counterexample:
  "fst (getCurrentQuestionId hiddenWorld) = JNull
   \<and> (case claimedLocated (elements (page hiddenWorld)) of
         Some e \<Rightarrow> itemId e
       | None \<Rightarrow> JNull) = JNum 3"
  by (simp add: getCurrentQuestionId_def hiddenWorld_def initial_def samplePage_def plainItem_def
      selectors_def matches_def claimedLocated_def isListItem_def itemId_def descendantId_def)

text \<open>
  C7, amended. \<open>getCurrentQuestionId\<close> tries, in this order, the first list item
  marked as review target, the first visible list item, and the first list item inside
  a question list; it returns the identifier of the first one found: the element's own
  \<open>question-id\<close> when truthy, else that of its first descendant carrying one when
  truthy, else the element's sibling position plus one. It returns \<open>null\<close> when the
  page has no list item, it returns 3 for an item at position 2 without any id, and it
  changes nothing.
\<close>

theorem currentQuestionId_contract:
  "getCurrentQuestionId w =
     (case located (elements (page w)) of Some e \<Rightarrow> itemId e | None \<Rightarrow> JNull, w)
   \<and> ((\<forall>e\<in>set (elements (page w)). \<not> isListItem e) \<longrightarrow> fst (getCurrentQuestionId w) = JNull)
   \<and> (\<forall>e. located (elements (page w)) = Some e \<and> el_data_id e = JUndefined
          \<and> el_descendant_ids e = [] \<and> el_index e = 2
        \<longrightarrow> fst (getCurrentQuestionId w) = JNum 3)"
  by (auto simp: getCurrentQuestionId_def probe_located located_without_items itemId_def
      descendantId_def)

theorem currentQuestionId_contract_witness:
  "located (elements (page sampleWorld)) = Some plainItem
   \<and> fst (getCurrentQuestionId sampleWorld) = JNum 3"
proof -
  have l: "located (elements (page sampleWorld)) = Some plainItem"
    by (simp add: sampleWorld_def initial_def samplePage_def plainItem_def located_def
        isListItem_def)
  have "el_data_id plainItem = JUndefined \<and> el_descendant_ids plainItem = []
        \<and> el_index plainItem = 2"
    by (simp add: plainItem_def)
  with l currentQuestionId_contract [of sampleWorld] show ?thesis by blast
qed

text \<open>
  C9. When the list item the locator stops at carries a falsy \<open>question-id\<close>, the
  result is not that value: it is the first descendant's id when truthy, else the
  sibling position plus one, exactly as for the same item without the attribute.
\<close>

theorem falsy_id_falls_through:
  assumes "located (elements (page w)) = Some e" and "\<not> truthy (el_data_id e)"
  shows "fst (getCurrentQuestionId w) \<noteq> el_data_id e
     \<and> fst (getCurrentQuestionId w) =
         (if truthy (descendantId e) then descendantId e else JNum (int (el_index e) + 1))
     \<and> questionIdOf e = questionIdOf (e\<lparr>el_data_id := JUndefined\<rparr>)"
  using assms
  by (cases "el_data_id e")
     (auto simp: getCurrentQuestionId_def probe_located itemId_def questionIdOf_def jor_def
        descendantId_def)

theorem falsy_id_falls_through_witness:
  "located (elements (page zeroIdWorld)) = Some (plainItem\<lparr>el_data_id := JNum 0\<rparr>)
   \<and> \<not> truthy (el_data_id (plainItem\<lparr>el_data_id := JNum 0\<rparr>))
   \<and> fst (getCurrentQuestionId zeroIdWorld) = JNum 3"
proof -
  have l: "located (elements (page zeroIdWorld)) = Some (plainItem\<lparr>el_data_id := JNum 0\<rparr>)"
    by (simp add: zeroIdWorld_def initial_def samplePage_def plainItem_def located_def
        isListItem_def)
  have f: "\<not> truthy (el_data_id (plainItem\<lparr>el_data_id := JNum 0\<rparr>))"
    by simp
  from falsy_id_falls_through [OF l f] l f show ?thesis
    by (simp add: plainItem_def descendantId_def)
qed

section \<open>Renderer and response handling\<close>


lemma fragment_image:
  "field m ''type'' = Some (JsStr ''image'') \<Longrightarrow>
     \<exists>alt. fragment m = [Img (field m ''url'') alt ''lazy'']"
  by (simp add: fragment_def)

lemma fragment_video:
  "field m ''type'' = Some (JsStr ''video'') \<Longrightarrow>
     fragment m = [Video (field m ''url'') True ''metadata'']"
  by (simp add: fragment_def)

text \<open>
  C1. A payload whose kind is neither image nor video, here
  \<open>{type: 'audio', url: 'clip.mp3'}\<close>, leaves the container empty: the old content is
  removed and nothing is put in, not even the fallback markup.
\<close>

theorem unknown_kind_empties_container:
  "container (page sampleWorld) = Some [Foreign ''old'']
   \<and> container (page (displayMedia audioMedia sampleWorld)) = Some []"
  by (simp add: sampleWorld_def initial_def samplePage_def displayMedia_def setContainer_def
      fragment_def audioMedia_def)

lemma member_field:
  "member (Some d) k = (if d = JsNull then Inl TypeError else Inr (field d k))"
  by (cases d) simp_all

lemma field_JsNull: "field JsNull k = None"
  by simp

lemma onData_payload:
  "onData q d w =
     (if d = JsNull \<or> (otruthy (field d ''success'')
          \<and> (field d ''data'' = None \<or> field d ''data'' = Some JsNull))
      then Inl TypeError
      else Inr (case acceptedMedia (Body d) of
                  Some m \<Rightarrow> displayMedia m (cacheMedia q m w)
                | None \<Rightarrow> displayFallbackMedia w))"
proof (cases "d = JsNull")
  case True
  then show ?thesis by (simp add: onData_def)
next
  case d: False
  show ?thesis
  proof (cases "otruthy (field d ''success'')")
    case False
    with d show ?thesis by (simp add: onData_def member_field acceptedMedia_def)
  next
    case s: True
    show ?thesis
    proof (cases "field d ''data''")
      case None
      with d s show ?thesis by (simp add: onData_def member_field)
    next
      case (Some dd)
      show ?thesis
      proof (cases "dd = JsNull")
        case True
        with d s Some show ?thesis by (simp add: onData_def member_field)
      next
        case False
        with d s Some show ?thesis
          by (cases "field dd ''media''") (simp_all add: onData_def member_field acceptedMedia_def)
      qed
    qed
  qed
qed

lemma acceptedMedia_raising:
  "d = JsNull \<or> (otruthy (field d ''success'')
      \<and> (field d ''data'' = None \<or> field d ''data'' = Some JsNull))
   \<Longrightarrow> acceptedMedia (Body d) = None"
  by (auto simp: acceptedMedia_def)

lemma mediaResponse_Inr:
  "mediaResponse q r w =
     Inr (case acceptedMedia r of
            Some m \<Rightarrow> displayMedia m (cacheMedia q m w)
          | None \<Rightarrow> displayFallbackMedia w)"
proof (cases r)
  case (Body d)
  show ?thesis
  proof (cases "d = JsNull \<or> (otruthy (field d ''success'')
          \<and> (field d ''data'' = None \<or> field d ''data'' = Some JsNull))")
    case True
    from acceptedMedia_raising [OF True] True Body show ?thesis
      by (simp add: mediaResponse_def parseBody_def onData_payload onError_def)
  next
    case False
    then have "onData q d w =
        Inr (case acceptedMedia (Body d) of
               Some m \<Rightarrow> displayMedia m (cacheMedia q m w)
             | None \<Rightarrow> displayFallbackMedia w)"
      unfolding onData_payload by (rule if_not_P)
    with Body show ?thesis
      by (simp add: mediaResponse_def parseBody_def)
  qed
qed (simp_all add: mediaResponse_def parseBody_def onError_def acceptedMedia_def)

lemma acceptedMedia_truthy: "acceptedMedia r = Some m \<Longrightarrow> jtruthy m"
  by (cases r) (simp_all add: acceptedMedia_def split: option.splits if_splits)

lemma respond_eq:
  "respond i r w =
     (if i < length (requests w) \<and> i \<notin> set (settled w) then
        (case acceptedMedia r of
           Some m \<Rightarrow>
             displayMedia m (cacheMedia (req_question_id (requests w ! i)) m (w\<lparr>settled := i # settled w\<rparr>))
         | None \<Rightarrow> displayFallbackMedia (w\<lparr>settled := i # settled w\<rparr>))
      else w)"
  by (simp add: respond_def mediaResponse_Inr)

lemma respond_fields [simp]:
  "now (respond i r w) = now w"
  "host (respond i r w) = host w"
  "initialized (respond i r w) = initialized w"
  "currentQuestion (respond i r w) = currentQuestion w"
  "observers (respond i r w) = observers w"
  "debounceTimers (respond i r w) = debounceTimers w"
  "timers (respond i r w) = timers w"
  "nextTimer (respond i r w) = nextTimer w"
  "watchers (respond i r w) = watchers w"
  "requests (respond i r w) = requests w"
  "trace (respond i r w) = trace w"
  by (simp_all add: respond_eq split: option.splits)




section \<open>Navigation handler\<close>

lemma trace_loadQuestionMedia:
  "trace (loadQuestionMedia q f w) = trace w @ [LoadCalled q f]"
  by (simp add: loadQuestionMedia_def Let_def split_beta emit_def)

text \<open>
  C10. The closure behind the navigation listener leaves the whole state as it is,
  \<open>currentQuestion\<close> and trace included, when the located id equals
  \<open>currentQuestion\<close> or is falsy; only for a truthy, different id does it record the
  id and call \<open>loadQuestionMedia\<close>, and every such call shows in the trace.
\<close>

theorem navigation_reload_guard:
  "(fst (getCurrentQuestionId w) = currentQuestion w \<longrightarrow> navigationAction w = w)
   \<and> (\<not> truthy (fst (getCurrentQuestionId w)) \<longrightarrow> navigationAction w = w)
   \<and> (truthy (fst (getCurrentQuestionId w)) \<and> fst (getCurrentQuestionId w) \<noteq> currentQuestion w \<longrightarrow>
        navigationAction w =
          loadQuestionMedia (fst (getCurrentQuestionId w)) False
            (w\<lparr>currentQuestion := fst (getCurrentQuestionId w)\<rparr>))
   \<and> trace (loadQuestionMedia q f w') = trace w' @ [LoadCalled q f]"
  by (simp add: navigationAction_def getCurrentQuestionId_def trace_loadQuestionMedia)

theorem navigation_reload_guard_witness:
  "fst (getCurrentQuestionId visitedWorld) = currentQuestion visitedWorld
   \<and> navigationAction visitedWorld = visitedWorld
   \<and> truthy (fst (getCurrentQuestionId sampleWorld))
   \<and> fst (getCurrentQuestionId sampleWorld) \<noteq> currentQuestion sampleWorld
   \<and> trace (navigationAction sampleWorld) = [LoadCalled (JNum 3) False]"
proof -
  have same: "fst (getCurrentQuestionId visitedWorld) = currentQuestion visitedWorld"
    by (simp add: getCurrentQuestionId_def probe_located visitedWorld_def sampleWorld_def
        initial_def samplePage_def plainItem_def located_def isListItem_def itemId_def
        descendantId_def)
  have q: "fst (getCurrentQuestionId sampleWorld) = JNum 3"
    by (simp add: getCurrentQuestionId_def probe_located sampleWorld_def
        initial_def samplePage_def plainItem_def located_def isListItem_def itemId_def
        descendantId_def)
  have cur: "currentQuestion sampleWorld = JNull" "trace sampleWorld = []"
    by (simp_all add: sampleWorld_def initial_def)
  from navigation_reload_guard [of visitedWorld] navigation_reload_guard [of sampleWorld]
    same q cur
  show ?thesis by (simp add: trace_loadQuestionMedia)
qed

section \<open>Pending timeouts and their registration\<close>

lemma timersOk_cong:
  "timers w' = timers w \<Longrightarrow> debounceTimers w' = debounceTimers w \<Longrightarrow> nextTimer w' = nextTimer w
     \<Longrightarrow> timersOk w' = timersOk w"
  by (simp add: timersOk_def)

lemma timers_debounce:
  "timers (debounce k f d w) =
     filter (\<lambda>tm. Some (tid tm) \<noteq> map_of (debounceTimers w) k) (timers w)
       @ [\<lparr>tid = nextTimer w, due = now w + max 0 d, tkey = k, tfunc = f\<rparr>]"
  by (auto simp: debounce_def Let_def setTimeout_def clearTimeout_def split: option.splits)

lemma nextTimer_debounce: "nextTimer (debounce k f d w) = Suc (nextTimer w)"
  by (simp add: debounce_def Let_def setTimeout_def clearTimeout_def split: option.splits)

lemma debounceTimers_debounce:
  "map_of (debounceTimers (debounce k f d w)) = (map_of (debounceTimers w))(k \<mapsto> nextTimer w)"
  by (simp add: debounce_def Let_def setTimeout_def clearTimeout_def update_conv'
      split: option.splits)

lemma timersOk_debounce:
  assumes "timersOk w"
  shows "timersOk (debounce k f d w)"
proof -
  have d: "distinct (map tid (timers w))"
    and r: "\<And>tm. tm \<in> set (timers w) \<Longrightarrow>
              map_of (debounceTimers w) (tkey tm) = Some (tid tm) \<and> tid tm < nextTimer w"
    using assms by (auto simp: timersOk_def)
  let ?keep = "filter (\<lambda>tm. Some (tid tm) \<noteq> map_of (debounceTimers w) k) (timers w)"
  have k: "tkey tm \<noteq> k" if "tm \<in> set ?keep" for tm
    using that r [of tm] by auto
  have "distinct (map tid ?keep)"
    using d by (simp add: distinct_map_filter)
  moreover have "nextTimer w \<notin> tid ` set ?keep"
    using r by fastforce
  ultimately have "distinct (map tid (timers (debounce k f d w)))"
    by (simp add: timers_debounce)
  moreover have "map_of (debounceTimers (debounce k f d w)) (tkey tm) = Some (tid tm)
                 \<and> tid tm < nextTimer (debounce k f d w)"
    if "tm \<in> set (timers (debounce k f d w))" for tm
  proof (cases "tm \<in> set ?keep")
    case True
    with k [OF True] r [of tm] show ?thesis
      by (simp add: debounceTimers_debounce nextTimer_debounce)
  next
    case False
    with that have "tm = \<lparr>tid = nextTimer w, due = now w + max 0 d, tkey = k, tfunc = f\<rparr>"
      by (auto simp: timers_debounce)
    then show ?thesis
      by (simp add: debounceTimers_debounce nextTimer_debounce)
  qed
  ultimately show ?thesis
    unfolding timersOk_def by blast
qed

lemma timers_fire: "timers (fire t w) = filter (\<lambda>tm. tid tm \<noteq> t) (timers w)"
proof (cases "List.find (\<lambda>tm. tid tm = t) (timers w)")
  case None
  then have "\<forall>tm\<in>set (timers w). tid tm \<noteq> t"
    by (auto simp: find_None_iff)
  with None show ?thesis by (simp add: fire_afterAction)
next
  case (Some tm)
  then show ?thesis by (simp add: fire_afterAction clearTimeout_def)
qed

lemma nextTimer_fire: "nextTimer (fire t w) = nextTimer w"
  by simp

lemma debounceTimers_fire:
  "map_of (debounceTimers (fire t w)) =
     (case List.find (\<lambda>tm. tid tm = t) (timers w) of
        Some tm \<Rightarrow>
          if completes (tfunc tm) then (map_of (debounceTimers w))(tkey tm := None)
          else map_of (debounceTimers w)
      | None \<Rightarrow> map_of (debounceTimers w))"
  by (simp add: fire_afterAction delete_conv' split: option.splits)

lemma timersOk_fire:
  assumes "timersOk w"
  shows "timersOk (fire t w)"
proof -
  have d: "distinct (map tid (timers w))"
    and r: "\<And>tm. tm \<in> set (timers w) \<Longrightarrow>
              map_of (debounceTimers w) (tkey tm) = Some (tid tm) \<and> tid tm < nextTimer w"
    using assms by (auto simp: timersOk_def)
  have "distinct (map tid (timers (fire t w)))"
    using d by (simp add: timers_fire distinct_map_filter)
  moreover have "map_of (debounceTimers (fire t w)) (tkey tm') = Some (tid tm')
                 \<and> tid tm' < nextTimer (fire t w)"
    if "tm' \<in> set (timers (fire t w))" for tm'
  proof -
    from that have in': "tm' \<in> set (timers w)" and ne: "tid tm' \<noteq> t"
      by (simp_all add: timers_fire)
    show ?thesis
    proof (cases "List.find (\<lambda>tm. tid tm = t) (timers w)")
      case None
      with r [OF in'] show ?thesis
        by (simp add: debounceTimers_fire nextTimer_fire)
    next
      case (Some tm)
      then have "tm \<in> set (timers w)" and "tid tm = t"
        by (auto simp: find_Some_iff)
      with r [of tm] r [OF in'] ne have "tkey tm' \<noteq> tkey tm"
        by auto
      with Some r [OF in'] show ?thesis
        by (simp add: debounceTimers_fire nextTimer_fire)
    qed
  qed
  ultimately show ?thesis
    unfolding timersOk_def by blast
qed

lemma timersOk_fold_fire: "timersOk w \<Longrightarrow> timersOk (fold fire ts w)"
  by (induction ts arbitrary: w) (simp_all add: timersOk_fire)

lemma timers_fold_fire:
  "timers (fold fire ts w) = filter (\<lambda>tm. tid tm \<notin> set ts) (timers w)"
  by (induction ts arbitrary: w) (auto simp: timers_fire intro: filter_cong)

lemma timersOk_advance: "timersOk w \<Longrightarrow> timersOk (advance t w)"
proof -
  assume "timersOk w"
  then have "timersOk (w\<lparr>now := max (now w) t\<rparr>)"
    by (simp add: timersOk_def)
  then show ?thesis
    by (simp add: advance_def Let_def timersOk_fold_fire)
qed

lemma timers_fold_clearTimeout:
  "timers (fold clearTimeout ts w) = filter (\<lambda>tm. tid tm \<notin> set ts) (timers w)"
  by (induction ts arbitrary: w) (auto simp: clearTimeout_def intro: filter_cong)

lemma timers_cleanup:
  "timers (cleanup w) = filter (\<lambda>tm. tid tm \<notin> snd ` set (debounceTimers w)) (timers w)"
  by (simp add: cleanup_def Let_def fold_preserves timers_fold_clearTimeout)

lemma debounceTimers_cleanup: "debounceTimers (cleanup w) = []"
  by (simp add: cleanup_def Let_def fold_preserves)

lemma timers_cleanup_empty:
  assumes "timersOk w"
  shows "timers (cleanup w) = []"
proof -
  have "tid tm \<in> snd ` set (debounceTimers w)" if "tm \<in> set (timers w)" for tm
  proof -
    from assms that have "map_of (debounceTimers w) (tkey tm) = Some (tid tm)"
      by (simp add: timersOk_def)
    then have "(tkey tm, tid tm) \<in> set (debounceTimers w)"
      by (rule map_of_SomeD)
    then show ?thesis by force
  qed
  then show ?thesis
    by (simp add: timers_cleanup filter_empty_conv)
qed

lemma timersOk_cleanup: "timersOk w \<Longrightarrow> timersOk (cleanup w)"
  by (simp add: timersOk_def [of "cleanup w"] timers_cleanup_empty)

lemma timersOk_step: "timersOk w \<Longrightarrow> timersOk (step e w)"
proof (cases e)
  case (Advance t)
  assume "timersOk w" with Advance show ?thesis by (simp add: timersOk_advance)
next
  case Initialize
  assume "timersOk w" with Initialize show ?thesis by (simp add: timersOk_cong [of "initialize w" w])
next
  case NavigationClick
  assume "timersOk w" with NavigationClick show ?thesis
    by (simp add: navigationClick_def timersOk_debounce)
next
  case (InputClick inp)
  assume "timersOk w" with InputClick show ?thesis
    by (simp add: inputClick_def timersOk_debounce)
next
  case (Mutations oid ms)
  assume "timersOk w" with Mutations show ?thesis
    by (simp add: timersOk_cong [of "deliver oid ms w" w])
next
  case (Response i r)
  assume "timersOk w" with Response show ?thesis
    by (simp add: timersOk_cong [of "respond i r w" w])
next
  case Unload
  assume "timersOk w" with Unload show ?thesis by (simp add: timersOk_cleanup)
next
  case (HostPage p)
  assume "timersOk w" with HostPage show ?thesis by (simp add: timersOk_def)
qed

section \<open>Observers and their registration\<close>

lemma observersOk_cong:
  "watchers w' = watchers w \<Longrightarrow> observers w' = observers w \<Longrightarrow> observersOk w' = observersOk w"
  by (simp add: observersOk_def)

lemma watchers_disconnect_length [simp]: "length (watchers (disconnect oid w)) = length (watchers w)"
  by (simp add: disconnect_def)

lemma connected_disconnect:
  "i < length (watchers w) \<Longrightarrow>
     connected (watchers (disconnect oid w) ! i) = (connected (watchers w ! i) \<and> i \<noteq> oid)"
  by (auto simp: disconnect_def nth_list_update)

lemma watchers_onMutation_length [simp]:
  "length (watchers (onMutation oid q m w)) = length (watchers w)"
  by (simp add: onMutation_def)

lemma connected_onMutation:
  "i < length (watchers w) \<Longrightarrow> connected (watchers (onMutation oid q m w) ! i) \<Longrightarrow>
     connected (watchers w ! i)"
  by (auto simp: onMutation_def connected_disconnect split: if_splits)

lemma watchers_observerCallback:
  "length (watchers (observerCallback oid q ms w)) = length (watchers w)
   \<and> (\<forall>i<length (watchers w). connected (watchers (observerCallback oid q ms w) ! i) \<longrightarrow>
         connected (watchers w ! i))"
  unfolding observerCallback_def
proof (induction ms arbitrary: w)
  case Nil
  then show ?case by simp
next
  case (Cons m ms)
  from Cons [of "onMutation oid q m w"] show ?case
    by (auto dest: connected_onMutation)
qed

lemma observersOk_deliver: "observersOk w \<Longrightarrow> observersOk (deliver oid ms w)"
  using watchers_observerCallback [of oid "wquestion (watchers w ! oid)" ms w]
  by (auto simp: observersOk_def deliver_def)

lemma observersOk_checkAnswer: "observersOk w \<Longrightarrow> observersOk (afterAction (CheckAnswer inp) w)"
  by (auto simp: observersOk_def afterAction_CheckAnswer nth_append less_Suc_eq split: option.splits)

lemma observersOk_afterAction: "observersOk w \<Longrightarrow> observersOk (afterAction a w)"
  by (cases a) (simp_all add: observersOk_checkAnswer observersOk_cong [of "navigationAction w" w])

lemma observersOk_fire: "observersOk w \<Longrightarrow> observersOk (fire t w)"
proof (cases "List.find (\<lambda>tm. tid tm = t) (timers w)")
  case None
  assume "observersOk w" with None show ?thesis by (simp add: fire_afterAction)
next
  case (Some tm)
  assume "observersOk w"
  then have e: "observersOk (emit (Ran (tkey tm) (tfunc tm)) (clearTimeout t w))"
    by (simp add: observersOk_def)
  then have "observersOk (afterAction (tfunc tm) (emit (Ran (tkey tm) (tfunc tm)) (clearTimeout t w)))"
    by (rule observersOk_afterAction)
  then have "observersOk ((afterAction (tfunc tm) (emit (Ran (tkey tm) (tfunc tm)) (clearTimeout t w)))
      \<lparr>debounceTimers := al\<rparr>)" for al
    by (simp add: observersOk_def)
  with Some e show ?thesis
    by (simp add: fire_afterAction)
qed

lemma observersOk_fold_fire: "observersOk w \<Longrightarrow> observersOk (fold fire ts w)"
  by (induction ts arbitrary: w) (simp_all add: observersOk_fire)

lemma observersOk_advance: "observersOk w \<Longrightarrow> observersOk (advance t w)"
proof -
  assume "observersOk w"
  then have "observersOk (w\<lparr>now := max (now w) t\<rparr>)"
    by (simp add: observersOk_def)
  then show ?thesis
    by (simp add: advance_def Let_def observersOk_fold_fire)
qed

lemma watchers_fold_disconnect:
  "length (watchers (fold disconnect ids w)) = length (watchers w)
   \<and> (\<forall>i<length (watchers w).
         connected (watchers (fold disconnect ids w) ! i) =
           (connected (watchers w ! i) \<and> i \<notin> set ids))"
proof (induction ids arbitrary: w)
  case Nil
  then show ?case by simp
next
  case (Cons a ids)
  from Cons [of "disconnect a w"] show ?case
    by (auto simp: connected_disconnect)
qed

lemma watchers_cleanup:
  "length (watchers (cleanup w)) = length (watchers w)
   \<and> (\<forall>i<length (watchers w).
         connected (watchers (cleanup w) ! i) =
           (connected (watchers w ! i) \<and> i \<notin> set (observers w)))"
  using watchers_fold_disconnect [of "observers w" "(fold clearTimeout (map snd (debounceTimers w)) w)\<lparr>debounceTimers := []\<rparr>"]
  by (simp add: cleanup_def Let_def fold_preserves)

lemma observers_cleanup: "observers (cleanup w) = []"
  by (simp add: cleanup_def Let_def)

lemma cleanup_disconnects_all:
  assumes "observersOk w" and "i < length (watchers w)"
  shows "\<not> connected (watchers (cleanup w) ! i)"
  using assms watchers_cleanup [of w] by (auto simp: observersOk_def)

lemma observersOk_cleanup: "observersOk w \<Longrightarrow> observersOk (cleanup w)"
  using watchers_cleanup [of w] by (auto simp: observersOk_def)

lemma observersOk_debounce: "observersOk w \<Longrightarrow> observersOk (debounce k f d w)"
  by (simp add: observersOk_cong [of "debounce k f d w" w])

lemma observersOk_step: "observersOk w \<Longrightarrow> observersOk (step e w)"
proof (cases e)
  case (Advance t)
  assume "observersOk w" with Advance show ?thesis by (simp add: observersOk_advance)
next
  case Initialize
  assume "observersOk w" with Initialize show ?thesis
    by (simp add: observersOk_cong [of "initialize w" w])
next
  case NavigationClick
  assume "observersOk w" with NavigationClick show ?thesis
    by (simp add: navigationClick_def observersOk_debounce)
next
  case (InputClick inp)
  assume "observersOk w" with InputClick show ?thesis
    by (simp add: inputClick_def observersOk_debounce)
next
  case (Mutations oid ms)
  assume "observersOk w" with Mutations show ?thesis by (simp add: observersOk_deliver)
next
  case (Response i r)
  assume "observersOk w" with Response show ?thesis
    by (simp add: observersOk_cong [of "respond i r w" w])
next
  case Unload
  assume "observersOk w" with Unload show ?thesis by (simp add: observersOk_cleanup)
next
  case (HostPage p)
  assume "observersOk w" with HostPage show ?thesis by (simp add: observersOk_def)
qed

section \<open>Cache entries and requests\<close>

lemma cacheOk_cong:
  "mediaCache w' = mediaCache w \<Longrightarrow> requests w' = requests w \<Longrightarrow> cacheOk w' = cacheOk w"
  by (simp add: cacheOk_def)

lemma cacheOkI:
  assumes "\<And>k e. mediaCache w k = Some e \<Longrightarrow> truthy k \<and> jtruthy (data e)"
    and "\<And>r. r \<in> set (requests w) \<Longrightarrow> truthy (req_question_id r)"
  shows "cacheOk w"
  unfolding cacheOk_def using assms by blast

lemma cacheOk_entry: "cacheOk w \<Longrightarrow> mediaCache w k = Some e \<Longrightarrow> truthy k \<and> jtruthy (data e)"
  unfolding cacheOk_def by blast

lemma cacheOk_request: "cacheOk w \<Longrightarrow> r \<in> set (requests w) \<Longrightarrow> truthy (req_question_id r)"
  unfolding cacheOk_def by blast

lemma mediaCache_getCachedMedia:
  "mediaCache (snd (getCachedMedia q w)) k = None
   \<or> mediaCache (snd (getCachedMedia q w)) k = mediaCache w k"
  by (simp add: getCachedMedia_def split: option.splits)

lemma cacheOk_getCachedMedia:
  assumes "cacheOk w"
  shows "cacheOk (snd (getCachedMedia q w))"
proof (rule cacheOkI)
  fix k e
  assume "mediaCache (snd (getCachedMedia q w)) k = Some e"
  with mediaCache_getCachedMedia [of q w k] have "mediaCache w k = Some e"
    by auto
  with assms show "truthy k \<and> jtruthy (data e)"
    by (rule cacheOk_entry)
next
  fix r
  assume "r \<in> set (requests (snd (getCachedMedia q w)))"
  then have "r \<in> set (requests w)" by simp
  with assms show "truthy (req_question_id r)"
    by (rule cacheOk_request)
qed

lemma cacheOk_fetchMedia:
  assumes "truthy q" and "cacheOk w"
  shows "cacheOk (fetchMedia q w)"
proof (rule cacheOkI)
  fix k e
  assume "mediaCache (fetchMedia q w) k = Some e"
  then have "mediaCache w k = Some e" by simp
  with assms(2) show "truthy k \<and> jtruthy (data e)"
    by (rule cacheOk_entry)
next
  fix r
  assume "r \<in> set (requests (fetchMedia q w))"
  then have "r \<in> set (requests w) \<or> req_question_id r = q"
    by (auto simp: fetchMedia_def)
  with assms show "truthy (req_question_id r)"
    by (auto dest: cacheOk_request)
qed

lemma cacheOk_displayMedia: "cacheOk (displayMedia m w) = cacheOk w"
  by (rule cacheOk_cong) simp_all

lemma cacheOk_emit: "cacheOk (emit e w) = cacheOk w"
  by (rule cacheOk_cong) simp_all

lemma cacheOk_loadQuestionMedia: "cacheOk w \<Longrightarrow> cacheOk (loadQuestionMedia q f w)"
  by (simp add: loadQuestionMedia_def Let_def split_beta cacheOk_emit cacheOk_displayMedia
      cacheOk_getCachedMedia cacheOk_fetchMedia)

lemma cacheOk_navigationAction: "cacheOk w \<Longrightarrow> cacheOk (navigationAction w)"
proof -
  assume a: "cacheOk w"
  have "cacheOk (w\<lparr>currentQuestion := q\<rparr>)" for q
    using a by (simp add: cacheOk_cong [of "w\<lparr>currentQuestion := q\<rparr>" w])
  then show ?thesis
    using a by (simp add: navigationAction_def getCurrentQuestionId_def cacheOk_loadQuestionMedia)
qed

lemma cacheOk_afterAction: "cacheOk w \<Longrightarrow> cacheOk (afterAction a w)"
proof (cases a)
  case Navigate
  assume "cacheOk w" with Navigate show ?thesis by (simp add: cacheOk_navigationAction)
next
  case (CheckAnswer inp)
  have "cacheOk (afterAction (CheckAnswer inp) w) = cacheOk w"
    by (rule cacheOk_cong) (simp_all add: afterAction_CheckAnswer split: option.splits)
  moreover assume "cacheOk w"
  ultimately show ?thesis using CheckAnswer by simp
qed

lemma cacheOk_fire: "cacheOk w \<Longrightarrow> cacheOk (fire t w)"
proof (cases "List.find (\<lambda>tm. tid tm = t) (timers w)")
  case None
  assume "cacheOk w" with None show ?thesis by (simp add: fire_afterAction)
next
  case (Some tm)
  assume "cacheOk w"
  then have e: "cacheOk (emit (Ran (tkey tm) (tfunc tm)) (clearTimeout t w))"
    by (simp add: cacheOk_cong [of "emit e (clearTimeout t w)" w for e])
  then have "cacheOk (afterAction (tfunc tm) (emit (Ran (tkey tm) (tfunc tm)) (clearTimeout t w)))"
    by (rule cacheOk_afterAction)
  then have "cacheOk ((afterAction (tfunc tm) (emit (Ran (tkey tm) (tfunc tm)) (clearTimeout t w)))
      \<lparr>debounceTimers := al\<rparr>)" for al
    by (simp add: cacheOk_def)
  with Some e show ?thesis
    by (simp add: fire_afterAction)
qed

lemma cacheOk_fold_fire: "cacheOk w \<Longrightarrow> cacheOk (fold fire ts w)"
  by (induction ts arbitrary: w) (simp_all add: cacheOk_fire)

lemma cacheOk_advance: "cacheOk w \<Longrightarrow> cacheOk (advance t w)"
proof -
  assume "cacheOk w"
  then have "cacheOk (w\<lparr>now := max (now w) t\<rparr>)"
    by (simp add: cacheOk_cong [of "w\<lparr>now := max (now w) t\<rparr>" w])
  then show ?thesis
    by (simp add: advance_def Let_def cacheOk_fold_fire)
qed

lemma cacheOk_initialize: "cacheOk w \<Longrightarrow> cacheOk (initialize w)"
proof -
  assume a: "cacheOk w"
  then have "cacheOk (w\<lparr>initialized := True\<rparr>)"
    by (simp add: cacheOk_cong [of "w\<lparr>initialized := True\<rparr>" w])
  then show ?thesis
    using a by (simp add: initialize_def getCurrentQuestionId_def cacheOk_loadQuestionMedia)
qed

lemma cacheOk_respond: "cacheOk w \<Longrightarrow> cacheOk (respond i r w)"
proof (cases "i < length (requests w) \<and> i \<notin> set (settled w)")
  case False
  assume "cacheOk w" with False show ?thesis by (auto simp: respond_eq)
next
  case True
  assume a: "cacheOk w"
  with True have q: "truthy (req_question_id (requests w ! i))"
    by (simp add: cacheOk_request)
  show ?thesis
  proof (cases "acceptedMedia r")
    case None
    with a True show ?thesis
      by (simp add: respond_eq cacheOk_cong [of "displayFallbackMedia (w\<lparr>settled := i # settled w\<rparr>)" w])
  next
    case (Some m)
    have "cacheOk (cacheMedia (req_question_id (requests w ! i)) m (w\<lparr>settled := i # settled w\<rparr>))"
    proof (rule cacheOkI)
      fix k e
      assume "mediaCache (cacheMedia (req_question_id (requests w ! i)) m (w\<lparr>settled := i # settled w\<rparr>)) k = Some e"
      then have "(k = req_question_id (requests w ! i) \<and> data e = m) \<or> mediaCache w k = Some e"
        by (auto simp: cacheMedia_def split: if_splits)
      with a q acceptedMedia_truthy [OF Some] show "truthy k \<and> jtruthy (data e)"
        by (auto dest: cacheOk_entry)
    next
      fix r'
      assume "r' \<in> set (requests (cacheMedia (req_question_id (requests w ! i)) m (w\<lparr>settled := i # settled w\<rparr>)))"
      then have "r' \<in> set (requests w)" by simp
      with a show "truthy (req_question_id r')" by (rule cacheOk_request)
    qed
    with Some True show ?thesis
      by (simp add: respond_eq cacheOk_displayMedia)
  qed
qed

lemma mediaCache_cleanup: "mediaCache (cleanup w) = Map.empty"
  by (simp add: cleanup_def Let_def)

lemma cacheOk_cleanup:
  assumes "cacheOk w"
  shows "cacheOk (cleanup w)"
proof (rule cacheOkI)
  fix k e
  assume "mediaCache (cleanup w) k = Some e"
  then show "truthy k \<and> jtruthy (data e)" by (simp add: mediaCache_cleanup)
next
  fix r
  assume "r \<in> set (requests (cleanup w))"
  then have "r \<in> set (requests w)" by simp
  with assms show "truthy (req_question_id r)" by (rule cacheOk_request)
qed

lemma cacheOk_step: "cacheOk w \<Longrightarrow> cacheOk (step e w)"
proof (cases e)
  case (Advance t)
  assume "cacheOk w" with Advance show ?thesis by (simp add: cacheOk_advance)
next
  case Initialize
  assume "cacheOk w" with Initialize show ?thesis by (simp add: cacheOk_initialize)
next
  case NavigationClick
  assume "cacheOk w" with NavigationClick show ?thesis
    by (simp add: navigationClick_def cacheOk_cong [of "debounce k f d w" w for k f d])
next
  case (InputClick inp)
  assume "cacheOk w" with InputClick show ?thesis
    by (simp add: inputClick_def cacheOk_cong [of "debounce k f d w" w for k f d])
next
  case (Mutations oid ms)
  assume "cacheOk w" with Mutations show ?thesis
    by (simp add: cacheOk_cong [of "deliver oid ms w" w])
next
  case (Response i r)
  assume "cacheOk w" with Response show ?thesis by (simp add: cacheOk_respond)
next
  case Unload
  assume "cacheOk w" with Unload show ?thesis by (simp add: cacheOk_cleanup)
next
  case (HostPage p)
  assume "cacheOk w" with HostPage show ?thesis
    by (simp add: cacheOk_cong [of "w\<lparr>page := p\<rparr>" w])
qed

lemma invariants_initial:
  "timersOk (initial h p t) \<and> observersOk (initial h p t) \<and> cacheOk (initial h p t)"
proof -
  have "cacheOk (initial h p t)"
    by (rule cacheOkI) (simp_all add: initial_def)
  then show ?thesis
    by (simp add: timersOk_def observersOk_def initial_def)
qed

lemma reachable_invariants: "reachable w \<Longrightarrow> timersOk w \<and> observersOk w \<and> cacheOk w"
  by (induction rule: reachable.induct)
     (simp_all add: invariants_initial timersOk_step observersOk_step cacheOk_step)

section \<open>Media fetcher\<close>





lemma sample_located: "probe selectors [plainItem] = JNum 3"
  by (simp add: probe_located plainItem_def located_def isListItem_def itemId_def
      descendantId_def)

lemma initialized_sample:
  "step Initialize sampleWorld = fetchMedia (JNum 3) (emit (LoadCalled (JNum 3) False) (sampleWorld\<lparr>initialized := True\<rparr>))"
  by (simp add: initialize_def getCurrentQuestionId_def sample_located sampleWorld_def initial_def
      samplePage_def loadQuestionMedia_def Let_def getCachedMedia_def emit_def)



section \<open>Answer watcher\<close>

lemma trace_fold_emit: "trace (fold (\<lambda>t. emit (f t)) ts w) = trace w @ map f ts"
  by (induction ts arbitrary: w) (simp_all add: emit_def)

lemma trace_showHintRequirement:
  "trace (showHintRequirement q w) =
     trace w @ map HintClicked (case q of None \<Rightarrow> [] | Some n \<Rightarrow> tips (page w) n)"
  by (simp add: showHintRequirement_def Let_def trace_fold_emit fold_preserves)

lemma deliver_disconnected:
  "\<not> (oid < length (watchers w) \<and> connected (watchers w ! oid)) \<Longrightarrow> deliver oid ms w = w"
  by (auto simp: deliver_def)

lemma deliver_single_incorrect:
  assumes "oid < length (watchers w)" and "connected (watchers w ! oid)"
    and "mtype m = ''attributes''" and "attributeName m = Some ''class''"
    and "''wpProQuiz_answerIncorrect'' \<in> classesOf (page w) (mtarget m)"
  shows "trace (deliver oid [m] w) =
           trace w @ NavDisabled #
             map HintClicked (case wquestion (watchers w ! oid) of None \<Rightarrow> [] | Some n \<Rightarrow> tips (page w) n)"
    and "\<not> connected (watchers (deliver oid [m] w) ! oid)"
    and "deliver oid ms (deliver oid [m] w) = deliver oid [m] w"
proof -
  let ?q = "wquestion (watchers w ! oid)"
  have d: "deliver oid [m] w = disconnect oid (handleIncorrectAnswer ?q (mtarget m) w)"
    using assms by (simp add: deliver_def observerCallback_def onMutation_def)
  show "trace (deliver oid [m] w) =
           trace w @ NavDisabled #
             map HintClicked (case ?q of None \<Rightarrow> [] | Some n \<Rightarrow> tips (page w) n)"
    unfolding d
    by (simp add: handleIncorrectAnswer_def trace_showHintRequirement emit_def setButtons_def
        split: option.splits)
  show n: "\<not> connected (watchers (deliver oid [m] w) ! oid)"
    unfolding d using assms(1) by (simp add: connected_disconnect)
  then show "deliver oid ms (deliver oid [m] w) = deliver oid [m] w"
    by (simp add: deliver_disconnected)
qed

lemma showInt_0: "showInt 0 = ''0''"
  by (simp add: showInt_def digitsOf_def)

lemma sample_initialized:
  "step Initialize sampleWorld =
     sampleWorld
       \<lparr>initialized := True,
         requests := [\<lparr>req_url = ajaxUrl sampleHost, req_method = ''POST'',
                      req_action = ''get_question_acf_media'', req_question_id = JNum 3,
                      req_nonce = nonce sampleHost\<rparr>],
         trace := [LoadCalled (JNum 3) False]\<rparr>"
  unfolding initialized_sample
  by (simp add: fetchMedia_def emit_def sampleWorld_def initial_def)

lemma sample_clicked:
  "step (InputClick sampleInput) (step Initialize sampleWorld) =
     sampleWorld
       \<lparr>initialized := True,
         requests := [\<lparr>req_url = ajaxUrl sampleHost, req_method = ''POST'',
                      req_action = ''get_question_acf_media'', req_question_id = JNum 3,
                      req_nonce = nonce sampleHost\<rparr>],
         trace := [LoadCalled (JNum 3) False],
         debounceTimers := [(''answer-check-0'', 0)],
         timers := [\<lparr>tid = 0, due = 50, tkey = ''answer-check-0'', tfunc = CheckAnswer sampleInput\<rparr>],
         nextTimer := 1\<rparr>"
  unfolding sample_initialized
  by (simp add: inputClick_def debounce_def Let_def setTimeout_def
      sampleWorld_def initial_def sampleHost_def sampleInput_def showInt_0)

lemma armedWorld_eq:
  "armedWorld =
     sampleWorld
       \<lparr>now := 50,
         initialized := True,
         requests := [\<lparr>req_url = ajaxUrl sampleHost, req_method = ''POST'',
                      req_action = ''get_question_acf_media'', req_question_id = JNum 3,
                      req_nonce = nonce sampleHost\<rparr>],
         watchers := [\<lparr>wquestion = Some 1, wtarget = 5, connected = True\<rparr>],
         observers := [0],
         nextTimer := 1,
         trace := [LoadCalled (JNum 3) False, Ran ''answer-check-0'' (CheckAnswer sampleInput)]\<rparr>"
proof -
  have "armedWorld = step (Advance 50) (step (InputClick sampleInput) (step Initialize sampleWorld))"
    by (simp add: armedWorld_def)
  then show ?thesis
    unfolding sample_clicked
    by (simp add: advance_def dueTimers_def Let_def fire_def clearTimeout_def emit_def
        checkAnswerAndEnforceHint_def sampleWorld_def initial_def sampleInput_def)
qed

lemma armed_reachable: "reachable armedWorld"
  unfolding armedWorld_def run.simps sampleWorld_def by (intro reachable.intros)

text \<open>
  C2. On the sample page an observer is armed on a wrapper that carries the
  \<open>incorrect\<close> marker. A batch of one class mutation disables navigation once and
  clicks the hint once; a batch of two does both twice, because \<open>forEach\<close> goes on
  through the batch after \<open>disconnect\<close>.
\<close>

theorem batch_fires_twice:
  "reachable armedWorld
   \<and> connected (watchers armedWorld ! 0)
   \<and> ''wpProQuiz_answerIncorrect'' \<in> classesOf (page armedWorld) 5
   \<and> trace (deliver 0 [classChange] armedWorld) = trace armedWorld @ [NavDisabled, HintClicked 9]
   \<and> trace (deliver 0 [classChange, classChange] armedWorld) =
       trace armedWorld @ [NavDisabled, HintClicked 9, NavDisabled, HintClicked 9]"
  unfolding armedWorld_eq [symmetric]
  by (simp add: armed_reachable) (simp add: armedWorld_eq deliver_def observerCallback_def onMutation_def
      handleIncorrectAnswer_def showHintRequirement_def Let_def disconnect_def emit_def
      setButtons_def addClass_def classChange_def sampleWorld_def initial_def samplePage_def)

section \<open>Teardown\<close>

lemma stale_debounce: "stale t w \<Longrightarrow> stale t (debounce k f d w)"
  by (auto simp: stale_def timers_debounce nextTimer_debounce)

lemma stale_fire: "stale t w \<Longrightarrow> stale t (fire t' w)"
  by (auto simp: stale_def timers_fire nextTimer_fire)

lemma stale_fold_fire: "stale t w \<Longrightarrow> stale t (fold fire ts w)"
  by (induction ts arbitrary: w) (simp_all add: stale_fire)

lemma stale_cong:
  "timers w' = timers w \<Longrightarrow> nextTimer w' = nextTimer w \<Longrightarrow> stale t w' = stale t w"
  by (simp add: stale_def)

lemma stale_advance: "stale t w \<Longrightarrow> stale t (advance t' w)"
proof -
  assume "stale t w"
  then have "stale t (w\<lparr>now := max (now w) t'\<rparr>)"
    by (simp add: stale_def)
  then show ?thesis
    by (simp add: advance_def Let_def stale_fold_fire)
qed

lemma stale_cleanup: "stale t w \<Longrightarrow> stale t (cleanup w)"
  by (auto simp: stale_def timers_cleanup)

lemma stale_step: "stale t w \<Longrightarrow> stale t (step e w)"
proof (cases e)
  case (Advance t')
  assume "stale t w" with Advance show ?thesis by (simp add: stale_advance)
next
  case Initialize
  assume "stale t w" with Initialize show ?thesis by (simp add: stale_cong [of "initialize w" w])
next
  case NavigationClick
  assume "stale t w" with NavigationClick show ?thesis
    by (simp add: navigationClick_def stale_debounce)
next
  case (InputClick inp)
  assume "stale t w" with InputClick show ?thesis
    by (simp add: inputClick_def stale_debounce)
next
  case (Mutations oid ms)
  assume "stale t w" with Mutations show ?thesis
    by (simp add: stale_cong [of "deliver oid ms w" w])
next
  case (Response i r)
  assume "stale t w" with Response show ?thesis
    by (simp add: stale_cong [of "respond i r w" w])
next
  case Unload
  assume "stale t w" with Unload show ?thesis by (simp add: stale_cleanup)
next
  case (HostPage p)
  assume "stale t w" with HostPage show ?thesis by (simp add: stale_def)
qed

lemma stale_run: "stale t w \<Longrightarrow> stale t (run es w)"
  by (induction es arbitrary: w) (simp_all add: stale_step)

lemma detached_cong: "watchers w' = watchers w \<Longrightarrow> detached i w' = detached i w"
  by (simp add: detached_def)

lemma detached_deliver: "detached i w \<Longrightarrow> detached i (deliver oid ms w)"
  using watchers_observerCallback [of oid "wquestion (watchers w ! oid)" ms w]
  by (auto simp: detached_def deliver_def)

lemma detached_checkAnswer: "detached i w \<Longrightarrow> detached i (afterAction (CheckAnswer inp) w)"
  by (auto simp: detached_def afterAction_CheckAnswer nth_append split: option.splits)

lemma detached_afterAction: "detached i w \<Longrightarrow> detached i (afterAction a w)"
  by (cases a) (simp_all add: detached_checkAnswer detached_cong [of "navigationAction w" w])

lemma detached_fire: "detached i w \<Longrightarrow> detached i (fire t w)"
proof (cases "List.find (\<lambda>tm. tid tm = t) (timers w)")
  case None
  assume "detached i w" with None show ?thesis by (simp add: fire_afterAction)
next
  case (Some tm)
  assume "detached i w"
  then have e: "detached i (emit (Ran (tkey tm) (tfunc tm)) (clearTimeout t w))"
    by (simp add: detached_def)
  then have "detached i (afterAction (tfunc tm) (emit (Ran (tkey tm) (tfunc tm)) (clearTimeout t w)))"
    by (rule detached_afterAction)
  then have "detached i ((afterAction (tfunc tm) (emit (Ran (tkey tm) (tfunc tm)) (clearTimeout t w)))
      \<lparr>debounceTimers := al\<rparr>)" for al
    by (simp add: detached_def)
  with Some e show ?thesis
    by (simp add: fire_afterAction)
qed

lemma detached_fold_fire: "detached i w \<Longrightarrow> detached i (fold fire ts w)"
  by (induction ts arbitrary: w) (simp_all add: detached_fire)

lemma detached_advance: "detached i w \<Longrightarrow> detached i (advance t w)"
proof -
  assume "detached i w"
  then have "detached i (w\<lparr>now := max (now w) t\<rparr>)"
    by (simp add: detached_def)
  then show ?thesis
    by (simp add: advance_def Let_def detached_fold_fire)
qed

lemma detached_cleanup: "detached i w \<Longrightarrow> detached i (cleanup w)"
  using watchers_cleanup [of w] by (auto simp: detached_def)

lemma detached_step: "detached i w \<Longrightarrow> detached i (step e w)"
proof (cases e)
  case (Advance t)
  assume "detached i w" with Advance show ?thesis by (simp add: detached_advance)
next
  case Initialize
  assume "detached i w" with Initialize show ?thesis by (simp add: detached_cong [of "initialize w" w])
next
  case NavigationClick
  assume "detached i w" with NavigationClick show ?thesis
    by (simp add: navigationClick_def detached_cong [of "debounce k f d w" w for k f d])
next
  case (InputClick inp)
  assume "detached i w" with InputClick show ?thesis
    by (simp add: inputClick_def detached_cong [of "debounce k f d w" w for k f d])
next
  case (Mutations oid ms)
  assume "detached i w" with Mutations show ?thesis by (simp add: detached_deliver)
next
  case (Response j r)
  assume "detached i w" with Response show ?thesis
    by (simp add: detached_cong [of "respond j r w" w])
next
  case Unload
  assume "detached i w" with Unload show ?thesis by (simp add: detached_cleanup)
next
  case (HostPage p)
  assume "detached i w" with HostPage show ?thesis by (simp add: detached_def)
qed

lemma detached_run: "detached i w \<Longrightarrow> detached i (run es w)"
  by (induction es arbitrary: w) (simp_all add: detached_step)

lemma advance_no_timers:
  "timers w = [] \<Longrightarrow> advance t w = w\<lparr>now := max (now w) t\<rparr>"
  by (simp add: advance_def Let_def dueTimers_def)

text \<open>
  C8. In every state a run can reach, after \<open>cleanup\<close> no timeout is pending, so
  letting time pass runs nothing; no timeout that was pending comes back in any later
  run; every observer is disconnected and stays so in any later run, and a batch
  delivered to it changes nothing; the registries and the media cache are empty.
\<close>

theorem cleanup_releases_everything:
  assumes "reachable w"
  shows "timers (cleanup w) = []
     \<and> advance t (cleanup w) = (cleanup w)\<lparr>now := max (now w) t\<rparr>
     \<and> (\<forall>tm\<in>set (timers w). tid tm \<notin> set (map tid (timers (run es (cleanup w)))))
     \<and> (\<forall>i<length (watchers w). \<not> connected (watchers (cleanup w) ! i)
           \<and> \<not> connected (watchers (run es (cleanup w)) ! i))
     \<and> deliver oid ms (cleanup w) = cleanup w
     \<and> observers (cleanup w) = [] \<and> debounceTimers (cleanup w) = []
     \<and> mediaCache (cleanup w) = Map.empty"
proof -
  from assms have t: "timersOk w" and o: "observersOk w"
    by (simp_all add: reachable_invariants)
  have e: "timers (cleanup w) = []"
    using t by (rule timers_cleanup_empty)
  have "tid tm \<notin> set (map tid (timers (run es (cleanup w))))" if "tm \<in> set (timers w)" for tm
  proof -
    from t that have "tid tm < nextTimer w"
      by (simp add: timersOk_def)
    with e have "stale (tid tm) (cleanup w)"
      by (simp add: stale_def)
    then have "stale (tid tm) (run es (cleanup w))"
      by (rule stale_run)
    then show ?thesis by (simp add: stale_def)
  qed
  moreover have d: "detached i (cleanup w)" if "i < length (watchers w)" for i
    using cleanup_disconnects_all [OF o that] that watchers_cleanup [of w]
    by (simp add: detached_def)
  have "\<not> connected (watchers (cleanup w) ! i) \<and> \<not> connected (watchers (run es (cleanup w)) ! i)"
    if "i < length (watchers w)" for i
    using d [OF that] detached_run [OF d [OF that], of es] by (simp add: detached_def)
  moreover have "deliver oid ms (cleanup w) = cleanup w"
  proof (rule deliver_disconnected)
    show "\<not> (oid < length (watchers (cleanup w)) \<and> connected (watchers (cleanup w) ! oid))"
      using d [of oid] watchers_cleanup [of w] by (auto simp: detached_def)
  qed
  ultimately show ?thesis
    using e by (simp add: advance_no_timers observers_cleanup debounceTimers_cleanup
        mediaCache_cleanup)
qed

lemma busyWorld_eq:
  "busyWorld =
     armedWorld
       \<lparr>debounceTimers := [(''navigation'', 1)],
         timers := [\<lparr>tid = 1, due = 150, tkey = ''navigation'', tfunc = Navigate\<rparr>],
         nextTimer := 2,
         settled := [0],
         mediaCache := [JNum 3 \<mapsto> \<lparr>data = imageMedia, timestamp = 50\<rparr>],
         page := samplePage\<lparr>container := Some [Img (Some (JsStr ''sign.png'')) (Some (JsStr ''Question media'')) ''lazy'']\<rparr>\<rparr>"
  unfolding busyWorld_def run.simps armedWorld_eq
  by (simp add: navigationClick_def debounce_def Let_def setTimeout_def debounceDelay_def
      respond_eq imageResponse_def acceptedMedia_def imageMedia_def cacheMedia_def displayMedia_def
      setContainer_def fragment_def sampleWorld_def initial_def samplePage_def)

lemma busy_reachable: "reachable busyWorld"
proof -
  have "reachable (run es w)" if "reachable w" for es w
    using that by (induction es arbitrary: w) (simp_all add: reachable.intros)
  then show ?thesis
    unfolding busyWorld_def using armed_reachable by blast
qed

theorem cleanup_releases_everything_witness:
  "reachable busyWorld
   \<and> map tid (timers busyWorld) = [1]
   \<and> connected (watchers busyWorld ! 0)
   \<and> mediaCache busyWorld (JNum 3) \<noteq> None
   \<and> timers (cleanup busyWorld) = []
   \<and> 1 \<notin> set (map tid (timers (run [NavigationClick, Advance 1000] (cleanup busyWorld))))
   \<and> \<not> connected (watchers (cleanup busyWorld) ! 0)
   \<and> deliver 0 [classChange] (cleanup busyWorld) = cleanup busyWorld
   \<and> mediaCache (cleanup busyWorld) = Map.empty"
proof -
  have f: "map tid (timers busyWorld) = [1]" "connected (watchers busyWorld ! 0)"
    "mediaCache busyWorld (JNum 3) \<noteq> None" "length (watchers busyWorld) = 1"
    "set (timers busyWorld) = {\<lparr>tid = 1, due = 150, tkey = ''navigation'', tfunc = Navigate\<rparr>}"
    by (simp_all add: busyWorld_eq armedWorld_eq)
  from cleanup_releases_everything [OF busy_reachable, of 0 "[NavigationClick, Advance 1000]" 0 "[classChange]"] f
    busy_reachable
  show ?thesis by simp
qed

section \<open>Debouncer\<close>












lemma timers_advance:
  assumes "timersOk w"
  shows "timers (advance t w) = filter (\<lambda>tm. \<not> due tm \<le> max (now w) t) (timers w)"
proof -
  have d: "distinct (map tid (timers w))"
    using assms by (simp add: timersOk_def)
  have "(tid tm \<notin> tid ` {x \<in> set (timers w). due x \<le> max (now w) t}) = (\<not> due tm \<le> max (now w) t)"
    if "tm \<in> set (timers w)" for tm
    using that d by (auto simp: distinct_map inj_on_def)
  then show ?thesis
    by (simp add: advance_def Let_def timers_fold_fire dueTimers_def cong: filter_cong)
qed


lemma pendingFor_advance:
  assumes "timersOk w"
  shows "pendingFor key (advance t w) = filter (\<lambda>tm. \<not> due tm \<le> max (now w) t) (pendingFor key w)"
  by (simp add: pendingFor_def timers_advance [OF assms] conj_commute)




lemma trace_debounce: "trace (debounce k f d w) = trace w"
  by simp









end
